theory Spec2Isabelle
  imports Main "HOL-Library.Word"
begin

section \<open>Bytes, files and Python values\<close>

text \<open>
  The parser of \<^verbatim>\<open>dhparser.py\<close> works on a binary file object opened with mode
  \<^verbatim>\<open>'rb'\<close>. A byte is an 8-bit word, a \<^verbatim>\<open>bytes\<close> object a list of them.
  The file object is the list of bytes not read yet together with the number of bytes
  already consumed, which is what \<^verbatim>\<open>f.tell()\<close> reports.
\<close>

type_synonym byte = "8 word"

record fileobj =
  ahead :: "byte list"
  tell :: nat

definition fopen :: "byte list \<Rightarrow> fileobj" where
  "fopen bs = \<lparr>ahead = bs, tell = 0\<rparr>"

text \<open>
  \<^verbatim>\<open>file.read(n)\<close> returns the next \<open>n\<close> bytes, or fewer when the file ends first
  (the empty \<^verbatim>\<open>bytes\<close> object at the end of the file). It never raises.
\<close>

definition read :: "nat \<Rightarrow> fileobj \<Rightarrow> byte list \<times> fileobj" where
  "read n f = (take n (ahead f),
               \<lparr>ahead = drop n (ahead f), tell = tell f + min n (length (ahead f))\<rparr>)"

text \<open>
  Exceptions of the Python run time that the modelled code can raise.
\<close>

datatype error =
  IOError | UnicodeDecodeError | ValueError | KeyError | TypeError | IndexError | OverflowError

text \<open>
  Python values that the parser returns or stores in its dictionary: a \<^verbatim>\<open>bytes\<close>
  object holding hex digits, a \<^verbatim>\<open>str\<close> and an \<^verbatim>\<open>int\<close>.
\<close>

datatype pyval = PyBytes string | PyStr string | PyInt int

section \<open>\<^verbatim>\<open>binascii.hexlify\<close>\<close>

definition hexdigit :: "nat \<Rightarrow> char" where
  "hexdigit n = ''0123456789abcdef'' ! n"

definition hexbyte :: "byte \<Rightarrow> string" where
  "hexbyte b = [hexdigit (unat b div 16), hexdigit (unat b mod 16)]"

definition hexlify :: "byte list \<Rightarrow> string" where
  "hexlify bs = concat (map hexbyte bs)"

section \<open>\<^verbatim>\<open>parse_unmapped_value\<close>\<close>

text \<open>
  The first \<^verbatim>\<open>while True\<close> loop (source lines 119 to 127): \<open>chunk\<close> is the value of the
  variable of that name at the head of the loop. The loop is left only by the
  \<^verbatim>\<open>break\<close> after three zero bytes; the result is the file behind them.
\<close>

partial_function (option) find_value_start :: "byte list \<Rightarrow> fileobj \<Rightarrow> fileobj option" where
  "find_value_start chunk f =
     (if chunk = [0] then
        (let (b1, f1) = read 1 f; chunk1 = chunk @ b1 in
         if chunk1 = [0, 0] then
           (let (b2, f2) = read 1 f1; chunk2 = chunk1 @ b2 in
            if chunk2 = [0, 0, 0] then Some f2 else find_value_start chunk2 f2)
         else find_value_start chunk1 f1)
      else (let (b, f1) = read 1 f in find_value_start b f1))"

definition caution_sequences :: "byte list list" where
  "caution_sequences = [[0x00], [0x32], [0x24], [0x04], [0x06]]"

text \<open>
  The second \<^verbatim>\<open>while True\<close> loop (source lines 132 to 140) with its inner
  \<^verbatim>\<open>while chunk in caution_sequences\<close>. One unfolding is one pass of the inner loop
  when \<open>chunk\<close> is a caution byte, and otherwise the two statements behind the inner
  loop. The only way out is the \<^verbatim>\<open>return\<close> of line 136.
\<close>

partial_function (option) read_value :: "byte list \<Rightarrow> byte list \<Rightarrow> fileobj \<Rightarrow> (pyval \<times> fileobj) option" where
  "read_value unmapped_val chunk f =
     (if chunk \<in> set caution_sequences then
        (let (next_chunk, f1) = read 1 f in
         if next_chunk = [0] then Some (PyBytes (hexlify unmapped_val), f1)
         else read_value unmapped_val next_chunk f1)
      else (let (c, f1) = read 1 f in read_value (unmapped_val @ chunk) c f1))"

definition parse_unmapped_value :: "fileobj \<Rightarrow> (pyval \<times> fileobj) option" where
  "parse_unmapped_value f =
     (let (chunk, f1) = read 1 f in
      case find_value_start chunk f1 of
        None \<Rightarrow> None
      | Some f2 \<Rightarrow>
          (let (unmapped_val, f3) = read 3 f2;
               (chunk', f4) = read 1 f3
           in read_value unmapped_val chunk' f4))"

section \<open>\<^verbatim>\<open>byte_swap_to_int\<close>\<close>

text \<open>
  The list comprehension \<^verbatim>\<open>[hexval[i:i+2] for i in range(0, len(hexval), 2)]\<close>: the
  pieces of two elements, the last one shorter when the length is odd.
\<close>

fun pairs_of :: "'a list \<Rightarrow> 'a list list" where
  "pairs_of [] = []"
| "pairs_of [x] = [[x]]"
| "pairs_of (x # y # xs) = [x, y] # pairs_of xs"

text \<open>
  Source lines 53 to 55: split into pieces, reverse the list of pieces, join.
\<close>

definition swap_endianness :: "string \<Rightarrow> string" where
  "swap_endianness hexval = concat (rev (pairs_of hexval))"

text \<open>
  \<^verbatim>\<open>int("0x" + c, 16)\<close> for the one-character string \<open>c\<close> that
  \<^verbatim>\<open>hexval[i:i+1].decode('utf-8')\<close> gives. A byte above \<open>0x7f\<close> alone is not UTF-8,
  and a character that is no hex digit is no integer literal.
\<close>

definition int16 :: "char \<Rightarrow> error + int" where
  "int16 c =
     (if digit7 c then Inl UnicodeDecodeError
      else if c \<in> set ''0123456789'' then Inr (int (of_char c) - 48)
      else if c \<in> set ''abcdef'' then Inr (int (of_char c) - 87)
      else if c \<in> set ''ABCDEF'' then Inr (int (of_char c) - 55)
      else Inl ValueError)"

fun digits16 :: "string \<Rightarrow> error + int list" where
  "digits16 [] = Inr []"
| "digits16 (c # cs) =
     (case int16 c of
        Inl e \<Rightarrow> Inl e
      | Inr d \<Rightarrow> (case digits16 cs of Inl e \<Rightarrow> Inl e | Inr ds \<Rightarrow> Inr (d # ds)))"

text \<open>
  The \<^verbatim>\<open>while exponent>=0\<close> loop of lines 60 to 62. The index
  \<^verbatim>\<open>abs((len(hexval)-1)-exponent)\<close> stays inside the list, since \<open>exponent\<close> starts at
  \<^verbatim>\<open>len(hexval)-1\<close> and only decreases.
\<close>

function sum_digits :: "int list \<Rightarrow> int \<Rightarrow> int \<Rightarrow> int" where
  "sum_digits hexval exponent hex_int =
     (if exponent \<ge> 0
      then sum_digits hexval (exponent - 1)
             (hex_int + hexval ! nat \<bar>(int (length hexval) - 1) - exponent\<bar> * 16 ^ nat exponent)
      else hex_int)"
  by pat_completeness auto
termination
  by (relation "measure (\<lambda>(hexval, exponent, hex_int). nat (exponent + 1))") auto

text \<open>
  \<^verbatim>\<open>byte_swap_to_int(hexval, str_flag)\<close>. Its argument is always the output of
  \<^verbatim>\<open>hexlify\<close>, which is ASCII; for other bytes the model of
  \<^verbatim>\<open>hexval.decode('utf-8')\<close> under \<open>str_flag\<close> reports the decoding error for every
  byte above \<open>0x7f\<close>.
\<close>

definition byte_swap_to_int :: "string \<Rightarrow> bool \<Rightarrow> error + pyval" where
  "byte_swap_to_int hexval str_flag =
     (let swapped = swap_endianness hexval in
      if str_flag then
        (if list_ex digit7 swapped then Inl UnicodeDecodeError else Inr (PyStr swapped))
      else
        (case digits16 swapped of
           Inl e \<Rightarrow> Inl e
         | Inr ds \<Rightarrow> Inr (PyInt (sum_digits ds (int (length ds) - 1) 0))))"

section \<open>\<^verbatim>\<open>parse_header_and_guid\<close>\<close>

definition header_magic :: "byte list" where
  "header_magic = [0x08, 0x00, 0x00, 0x00, 0x08, 0x00]"

text \<open>
  The \<^verbatim>\<open>while oct_count<=2\<close> loop of lines 82 to 87, which reverses the byte order of
  the first three groups.
\<close>

function swap_octs :: "nat \<Rightarrow> string list \<Rightarrow> string list" where
  "swap_octs oct_count guid_oct =
     (if oct_count \<le> 2
      then swap_octs (oct_count + 1)
             (guid_oct[oct_count := concat (rev (pairs_of (guid_oct ! oct_count)))])
      else guid_oct)"
  by pat_completeness auto
termination
  by (relation "measure (\<lambda>(oct_count, guid_oct). 3 - oct_count)") auto

definition parse_header_and_guid :: "fileobj \<Rightarrow> error + (string \<times> fileobj)" where
  "parse_header_and_guid f =
     (let (header, f1) = read 6 f in
      if header \<noteq> header_magic then Inl IOError
      else
        (let (skipped, f2) = read 18 f1;
             (g0, f3) = read 4 f2;
             (g1, f4) = read 2 f3;
             (g2, f5) = read 2 f4;
             (g3, f6) = read 2 f5;
             (g4, f7) = read 6 f6;
             guid_oct = swap_octs 0 [hexlify g0, hexlify g1, hexlify g2, hexlify g3, hexlify g4]
         in Inr (guid_oct ! 0 @ ''-'' @ guid_oct ! 1 @ ''-'' @ guid_oct ! 2 @ ''-''
                   @ guid_oct ! 3 @ ''-'' @ guid_oct ! 4, f7)))"

section \<open>Text: decoding and the regular expressions\<close>

text \<open>
  \<^verbatim>\<open>chunk.decode('windows-1252')\<close> maps every byte to one character and raises
  \<^verbatim>\<open>UnicodeDecodeError\<close> on the five bytes that code page leaves undefined. A
  \<^verbatim>\<open>str\<close> that comes out of it is represented here by the code page's own byte for
  each of its characters, so that an ASCII literal of the source is the same literal
  here.
\<close>

definition cp1252_undefined :: "byte list" where
  "cp1252_undefined = [0x81, 0x8D, 0x8F, 0x90, 0x9D]"

definition decode :: "byte list \<Rightarrow> error + string" where
  "decode chunk =
     (if list_ex (\<lambda>b. b \<in> set cp1252_undefined) chunk then Inl UnicodeDecodeError
      else Inr (map (\<lambda>b. char_of (unat b)) chunk))"

text \<open>\<^verbatim>\<open>re.sub("\x00", "", s)\<close>\<close>

definition strip_nul :: "string \<Rightarrow> string" where
  "strip_nul s = filter (\<lambda>c. c \<noteq> CHR 0x00) s"

text \<open>
  The characters that \<^verbatim>\<open>\w\<close> matches among those of the code page: the ASCII
  letters, digits and underscore, and the letters and numeric characters above
  \<open>0x7f\<close>, given by their bytes.
\<close>

definition word_char :: "char \<Rightarrow> bool" where
  "word_char c =
     (let n = (of_char c :: nat) in
      (48 \<le> n \<and> n \<le> 57) \<or> (65 \<le> n \<and> n \<le> 90) \<or> n = 95 \<or> (97 \<le> n \<and> n \<le> 122)
      \<or> n \<in> set [0x83, 0x88, 0x8A, 0x8C, 0x8E, 0x9A, 0x9C, 0x9E, 0x9F, 0xAA, 0xB2, 0xB3,
                   0xB5, 0xB9, 0xBA, 0xBC, 0xBD, 0xBE]
      \<or> (0xC0 \<le> n \<and> n \<le> 0xD6) \<or> (0xD8 \<le> n \<and> n \<le> 0xF6) \<or> 0xF8 \<le> n)"

text \<open>\<^verbatim>\<open>len(re.sub(r'\W+', '', s))\<close>: the number of word characters of \<open>s\<close>.\<close>

definition alnum_len :: "string \<Rightarrow> nat" where
  "alnum_len s = length (filter word_char s)"

definition is_digit :: "char \<Rightarrow> bool" where
  "is_digit c = (c \<in> set ''0123456789'')"

definition ascii_alnum :: "char \<Rightarrow> bool" where
  "ascii_alnum c =
     (c \<in> set ''abcdefghijklmnopqrstuvwxyzABCDEFGHIJKLMNOPQRSTUVWXYZ0123456789'')"

text \<open>
  The substitution of the Trailer section, line 292:
  \<^verbatim>\<open>re.sub(r':(?=..(?<!\d:\d\d))|[^a-zA-Z0-9 ](?<!:)', '', s)\<close>. Every match is one
  character, and the look-arounds read the string as it was. A colon is deleted when
  two characters other than a line feed follow it, unless a digit stands before it
  and both of them are digits; any other character is deleted unless it is an ASCII
  letter, a digit or a space. \<open>eof_kept s i\<close> says that the character at index \<open>i\<close>
  stays.
\<close>

definition eof_kept :: "string \<Rightarrow> nat \<Rightarrow> bool" where
  "eof_kept s i =
     (if s ! i = CHR '':'' then
        \<not> (i + 2 < length s \<and> s ! (i + 1) \<noteq> CHR 0x0A \<and> s ! (i + 2) \<noteq> CHR 0x0A
           \<and> \<not> (1 \<le> i \<and> is_digit (s ! (i - 1)) \<and> is_digit (s ! (i + 1))
                  \<and> is_digit (s ! (i + 2))))
      else ascii_alnum (s ! i) \<or> s ! i = CHR '' '')"

definition eof_sub :: "string \<Rightarrow> string" where
  "eof_sub s = map (\<lambda>i. s ! i) (filter (eof_kept s) [0 ..< length s])"

text \<open>The test \<^verbatim>\<open>needle in hay\<close> on strings.\<close>

fun contains :: "string \<Rightarrow> string \<Rightarrow> bool" where
  "contains needle [] = (needle = [])"
| "contains needle (c # cs) = (take (length needle) (c # cs) = needle \<or> contains needle cs)"

text \<open>\<^verbatim>\<open>xs[i]\<close> on a list, where a negative index counts from the end.\<close>

definition py_index :: "'a list \<Rightarrow> int \<Rightarrow> 'a option" where
  "py_index xs i =
     (let n = int (length xs); j = (if i < 0 then n + i else i)
      in if 0 \<le> j \<and> j < n then Some (xs ! nat j) else None)"

section \<open>\<^verbatim>\<open>parse_filetime\<close>\<close>

text \<open>
  The function skips four bytes, reads eight and turns their little-endian value, the
  tick count, into a text (lines 106 to 108: the division by ten, \<^verbatim>\<open>timedelta\<close>, the
  addition to the first of January 1601 and \<^verbatim>\<open>strftime\<close>). That last part is the
  parameter \<open>render\<close>, from the tick count to the text or to the exception raised, so
  that the section decoders can be stated for any rendering; the program itself is
  \<open>parse_filetime filetime_text\<close>, with \<open>filetime_text\<close> the model of lines 106 to 108
  given further down.
\<close>

definition parse_filetime :: "(int \<Rightarrow> error + string) \<Rightarrow> fileobj \<Rightarrow> (error + string) \<times> fileobj" where
  "parse_filetime render f =
     (let (skipped, f1) = read 4 f;
          (raw, f2) = read 8 f1
      in (case byte_swap_to_int (hexlify raw) False of
            Inl e \<Rightarrow> Inl e
          | Inr (PyInt filetime_nanoseconds) \<Rightarrow> render filetime_nanoseconds
          | Inr other \<Rightarrow> Inl TypeError,
          f2))"

section \<open>The state of \<^verbatim>\<open>parse_detection_history\<close>\<close>

text \<open>
  The mode constants are the byte strings \<^verbatim>\<open>b'\x00'\<close>, \<^verbatim>\<open>b'\x01'\<close> and
  \<^verbatim>\<open>b'\x02'\<close>; \<open>MODE_FF\<close> is the \<^verbatim>\<open>b'\xFF'\<close> that \<^verbatim>\<open>LAST_READ_MODE\<close> starts with.
  The three section variables are used as truth values only.
\<close>

datatype mode = KEY_READ_MODE | VALUE_READ_MODE | NULL_DATA_MODE | MODE_FF

record pstate =
  fobj :: fileobj
  parsed_value_dict :: "string \<rightharpoonup> pyval"
  temp_key :: string
  CURRENT_MODE :: mode
  LAST_READ_MODE :: mode
  MAGIC_VERSION_SECTION :: bool
  GENERAL_SECTION :: bool
  NEAREST_EOF_SECTION :: bool
  CURRENT_EOF_SECTION_KEY :: int

definition EOF_SECTION_KEYS :: "string list" where
  "EOF_SECTION_KEYS = [''User'', ''SpawningProcessName'', ''SecurityGroup'']"

text \<open>
  \<^verbatim>\<open>d[k] += chunk.decode('windows-1252')\<close>: the old value is looked up first, then
  the chunk is decoded, then the two are added.
\<close>

definition dict_append :: "(string \<rightharpoonup> pyval) \<Rightarrow> string \<Rightarrow> byte list \<Rightarrow> error + (string \<rightharpoonup> pyval)" where
  "dict_append d k chunk =
     (case d k of
        None \<Rightarrow> Inl KeyError
      | Some old \<Rightarrow>
          (case decode chunk of
             Inl e \<Rightarrow> Inl e
           | Inr t \<Rightarrow>
               (case old of PyStr v \<Rightarrow> Inr (d(k \<mapsto> PyStr (v @ t))) | _ \<Rightarrow> Inl TypeError)))"

text \<open>
  \<^verbatim>\<open>re.sub("\x00", "", d[k])\<close>: the value under \<open>k\<close> without its zero characters.
\<close>

definition dict_stripped :: "(string \<rightharpoonup> pyval) \<Rightarrow> string \<Rightarrow> error + string" where
  "dict_stripped d k =
     (case d k of
        None \<Rightarrow> Inl KeyError
      | Some (PyStr v) \<Rightarrow> Inr (strip_nul v)
      | Some other \<Rightarrow> Inl TypeError)"

section \<open>The Magic Version section\<close>

definition file_marker :: string where
  "file_marker = [CHR ''f'', CHR 0x00, CHR ''i'', CHR 0x00, CHR ''l'', CHR 0x00, CHR ''e'']"

text \<open>
  The body of the loop \<^verbatim>\<open>while MAGIC_VERSION_SECTION\<close> behind the test for the end of
  the file (lines 179 to 208). The chunk has been read: the file of \<open>s\<close> stands
  behind it.
\<close>

definition magic_version_body :: "byte list \<Rightarrow> pstate \<Rightarrow> error + pstate" where
  "magic_version_body chunk s =
     (if CURRENT_MODE s = KEY_READ_MODE then
        (if chunk = [0x3A, 0x00] then
           (let k = strip_nul (temp_key s)
            in Inr (s\<lparr>temp_key := k,
                      parsed_value_dict := (parsed_value_dict s)(k \<mapsto> PyStr []),
                      CURRENT_MODE := VALUE_READ_MODE\<rparr>))
         else
           (case decode chunk of
              Inl e \<Rightarrow> Inl e
            | Inr t \<Rightarrow>
                (let k = temp_key s @ t in
                 if contains file_marker k then
                   (let k' = strip_nul k
                    in Inr (s\<lparr>temp_key := k',
                              parsed_value_dict := (parsed_value_dict s)(k' \<mapsto> PyStr []),
                              CURRENT_MODE := VALUE_READ_MODE,
                              MAGIC_VERSION_SECTION := False,
                              fobj := snd (read 16 (fobj s))\<rparr>))
                 else Inr (s\<lparr>temp_key := k\<rparr>))))
      else if CURRENT_MODE s = VALUE_READ_MODE then
        (if chunk = [0x00, 0x00] then
           (let (next_chunk, f1) = read 2 (fobj s) in
            if next_chunk = [0x00, 0x00] then
              (case dict_stripped (parsed_value_dict s) (temp_key s) of
                 Inl e \<Rightarrow> Inl e
               | Inr v \<Rightarrow>
                   Inr (s\<lparr>fobj := f1,
                          parsed_value_dict := (parsed_value_dict s)(temp_key s \<mapsto> PyStr v),
                          temp_key := [],
                          CURRENT_MODE := NULL_DATA_MODE\<rparr>))
            else Inr (s\<lparr>fobj := f1\<rparr>))
         else
           (case dict_append (parsed_value_dict s) (temp_key s) chunk of
              Inl e \<Rightarrow> Inl e
            | Inr d \<Rightarrow> Inr (s\<lparr>parsed_value_dict := d\<rparr>)))
      else if CURRENT_MODE s = NULL_DATA_MODE then
        (case (if tell (fobj s) = 242
               then (case byte_swap_to_int (hexlify chunk) False of
                       Inl e \<Rightarrow> Inl e
                     | Inr v \<Rightarrow> Inr ((parsed_value_dict s)(''ThreatStatusID'' \<mapsto> v)))
               else Inr (parsed_value_dict s)) of
           Inl e \<Rightarrow> Inl e
         | Inr d \<Rightarrow>
             (case decode chunk of
                Inl e \<Rightarrow> Inl e
              | Inr t \<Rightarrow>
                  if alnum_len t \<ge> 1 then
                    (let (extra, f1) = read 2 (fobj s); chunk' = chunk @ extra in
                     case decode chunk' of
                       Inl e \<Rightarrow> Inl e
                     | Inr t' \<Rightarrow>
                         if alnum_len t' \<ge> 2
                         then Inr (s\<lparr>fobj := f1, parsed_value_dict := d,
                                     temp_key := temp_key s @ t',
                                     CURRENT_MODE := KEY_READ_MODE\<rparr>)
                         else Inr (s\<lparr>fobj := f1, parsed_value_dict := d\<rparr>))
                  else Inr (s\<lparr>parsed_value_dict := d\<rparr>)))
      else Inr s)"

partial_function (option) magic_version_loop :: "pstate \<Rightarrow> (error + pstate) option" where
  "magic_version_loop s =
     (if MAGIC_VERSION_SECTION s then
        (let (chunk, f1) = read 2 (fobj s) in
         if chunk = [] then Some (Inr (s\<lparr>fobj := f1, MAGIC_VERSION_SECTION := False\<rparr>))
         else
           (case magic_version_body chunk (s\<lparr>fobj := f1\<rparr>) of
              Inl e \<Rightarrow> Some (Inl e)
            | Inr s' \<Rightarrow> magic_version_loop s'))
      else Some (Inr s))"

section \<open>The General section\<close>

text \<open>
  \<^verbatim>\<open>byte_swap_to_int(parse_unmapped_value(f), str_flag)\<close>: the scanner may not return;
  when it does, its value is byte-swapped. An \<^verbatim>\<open>int\<close> has no length, so the integer
  of the statement behind the scanner's loop would be a \<^verbatim>\<open>TypeError\<close> here.
\<close>

definition tracking_value :: "bool \<Rightarrow> fileobj \<Rightarrow> ((error + pyval) \<times> fileobj) option" where
  "tracking_value str_flag f =
     (case parse_unmapped_value f of
        None \<Rightarrow> None
      | Some (v, f') \<Rightarrow>
          Some (case v of PyBytes h \<Rightarrow> byte_swap_to_int h str_flag | _ \<Rightarrow> Inl TypeError, f'))"

text \<open>
  Lines 217 to 233: the branch for \<^verbatim>\<open>NULL_DATA_MODE\<close>. The file of \<open>s\<close> stands behind
  the chunk.
\<close>

definition general_null :: "byte list \<Rightarrow> pstate \<Rightarrow> error + pstate" where
  "general_null chunk s =
     (case decode chunk of
        Inl e \<Rightarrow> Inl e
      | Inr t \<Rightarrow>
          if alnum_len t \<ge> 1 then
            (let (extra, f1) = read 2 (fobj s); chunk' = chunk @ extra in
             case decode chunk' of
               Inl e \<Rightarrow> Inl e
             | Inr t' \<Rightarrow>
                 if alnum_len t' \<ge> 2 then
                   (if LAST_READ_MODE s = KEY_READ_MODE then
                      (case dict_append (parsed_value_dict s) (temp_key s) chunk' of
                         Inl e \<Rightarrow> Inl e
                       | Inr d \<Rightarrow>
                           Inr (s\<lparr>fobj := f1, parsed_value_dict := d,
                                  CURRENT_MODE := VALUE_READ_MODE\<rparr>))
                    else Inr (s\<lparr>fobj := f1, temp_key := temp_key s @ t',
                                CURRENT_MODE := KEY_READ_MODE\<rparr>))
                 else Inr (s\<lparr>fobj := f1\<rparr>))
          else if chunk = [0x0A, 0x00] \<or> chunk = [0x00, 0x0A] then
            (let (skipped, f1) = read 2 (fobj s);
                 (chunk', f2) = read 4 f1
             in if chunk' = [0x15, 0x00, 0x00, 0x00] \<or> chunk' = [0x00, 0x15, 0x00, 0x00]
                then Inr (s\<lparr>fobj := f2\<rparr>)
                else Inr (s\<lparr>fobj := snd (read 4 f2), GENERAL_SECTION := False\<rparr>))
          else Inr s)"

text \<open>
  Lines 236 to 257: a zero chunk in \<^verbatim>\<open>KEY_READ_MODE\<close>.
\<close>

definition general_key_end :: "(int \<Rightarrow> error + string) \<Rightarrow> pstate \<Rightarrow> (error + pstate) option" where
  "general_key_end render s =
     (let k = strip_nul (temp_key s) in
      if contains ''Magic.'' (take 6 k) then
        Some (Inr (s\<lparr>temp_key := [], LAST_READ_MODE := VALUE_READ_MODE,
                     CURRENT_MODE := NULL_DATA_MODE\<rparr>))
      else if contains ''Time'' k then
        (let (r, f1) = parse_filetime render (fobj s) in
         case r of
           Inl e \<Rightarrow> Some (Inl e)
         | Inr t \<Rightarrow>
             Some (Inr (s\<lparr>fobj := f1,
                          parsed_value_dict := (parsed_value_dict s)(k \<mapsto> PyStr t),
                          temp_key := [], LAST_READ_MODE := VALUE_READ_MODE,
                          CURRENT_MODE := NULL_DATA_MODE\<rparr>)))
      else if contains ''ThreatTrackingThreatId'' k \<or> contains ''ThreatTrackingSize'' k then
        (case tracking_value False (fobj s) of
           None \<Rightarrow> None
         | Some (Inl e, f1) \<Rightarrow> Some (Inl e)
         | Some (Inr v, f1) \<Rightarrow>
             Some (Inr (s\<lparr>fobj := f1,
                          parsed_value_dict := (parsed_value_dict s)(k \<mapsto> v),
                          temp_key := [], LAST_READ_MODE := VALUE_READ_MODE,
                          CURRENT_MODE := NULL_DATA_MODE\<rparr>)))
      else if contains ''ThreatTrackingSigSeq'' k then
        (case tracking_value True (fobj s) of
           None \<Rightarrow> None
         | Some (Inl e, f1) \<Rightarrow> Some (Inl e)
         | Some (Inr (PyStr h), f1) \<Rightarrow>
             Some (Inr (s\<lparr>fobj := f1,
                          parsed_value_dict := (parsed_value_dict s)(k \<mapsto> PyStr (''0x0000'' @ h)),
                          temp_key := [], LAST_READ_MODE := VALUE_READ_MODE,
                          CURRENT_MODE := NULL_DATA_MODE\<rparr>))
         | Some (Inr other, f1) \<Rightarrow> Some (Inl TypeError))
      else
        Some (Inr (s\<lparr>temp_key := k,
                     parsed_value_dict := (parsed_value_dict s)(k \<mapsto> PyStr []),
                     LAST_READ_MODE := KEY_READ_MODE,
                     CURRENT_MODE := NULL_DATA_MODE\<rparr>)))"

text \<open>
  Lines 258 to 274: a zero chunk in \<^verbatim>\<open>VALUE_READ_MODE\<close>.
\<close>

definition general_value_end :: "pstate \<Rightarrow> (error + pstate) option" where
  "general_value_end s =
     (case dict_stripped (parsed_value_dict s) (temp_key s) of
        Inl e \<Rightarrow> Some (Inl e)
      | Inr final_value \<Rightarrow>
          if contains ''Threat'' (take 6 final_value) \<or> contains ''regkey'' (take 6 final_value)
          then
            (let d = ((parsed_value_dict s)(temp_key s \<mapsto> PyStr []))(final_value \<mapsto> PyStr []) in
             if contains ''ThreatTrackingThreatId'' final_value
                \<or> contains ''ThreatTrackingSize'' final_value
             then
               (case tracking_value False (fobj s) of
                  None \<Rightarrow> None
                | Some (Inl e, f1) \<Rightarrow> Some (Inl e)
                | Some (Inr v, f1) \<Rightarrow>
                    Some (Inr (s\<lparr>fobj := f1, parsed_value_dict := d(final_value \<mapsto> v),
                                 temp_key := [], LAST_READ_MODE := VALUE_READ_MODE,
                                 CURRENT_MODE := NULL_DATA_MODE\<rparr>)))
             else
               Some (Inr (s\<lparr>parsed_value_dict := d, temp_key := final_value,
                            LAST_READ_MODE := KEY_READ_MODE,
                            CURRENT_MODE := NULL_DATA_MODE\<rparr>)))
          else
            Some (Inr (s\<lparr>parsed_value_dict := (parsed_value_dict s)(temp_key s \<mapsto> PyStr final_value),
                         LAST_READ_MODE := VALUE_READ_MODE, temp_key := [],
                         CURRENT_MODE := NULL_DATA_MODE\<rparr>)))"

text \<open>
  The body of the loop \<^verbatim>\<open>while GENERAL_SECTION\<close> behind the test for the end of the
  file (lines 216 to 278).
\<close>

definition general_body :: "(int \<Rightarrow> error + string) \<Rightarrow> byte list \<Rightarrow> pstate \<Rightarrow> (error + pstate) option" where
  "general_body render chunk s =
     (if CURRENT_MODE s = NULL_DATA_MODE then Some (general_null chunk s)
      else if chunk = [0x00, 0x00] then
        (if CURRENT_MODE s = KEY_READ_MODE then general_key_end render s
         else if CURRENT_MODE s = VALUE_READ_MODE then general_value_end s
         else Some (Inr s))
      else if CURRENT_MODE s = KEY_READ_MODE then
        (case decode chunk of
           Inl e \<Rightarrow> Some (Inl e)
         | Inr t \<Rightarrow> Some (Inr (s\<lparr>temp_key := temp_key s @ t\<rparr>)))
      else if CURRENT_MODE s = VALUE_READ_MODE then
        (case dict_append (parsed_value_dict s) (temp_key s) chunk of
           Inl e \<Rightarrow> Some (Inl e)
         | Inr d \<Rightarrow> Some (Inr (s\<lparr>parsed_value_dict := d\<rparr>)))
      else Some (Inr s))"

partial_function (option) general_loop :: "(int \<Rightarrow> error + string) \<Rightarrow> pstate \<Rightarrow> (error + pstate) option" where
  "general_loop render s =
     (if GENERAL_SECTION s then
        (let (chunk, f1) = read 2 (fobj s) in
         if chunk = [] then Some (Inr (s\<lparr>fobj := f1, GENERAL_SECTION := False\<rparr>))
         else
           (case general_body render chunk (s\<lparr>fobj := f1\<rparr>) of
              None \<Rightarrow> None
            | Some (Inl e) \<Rightarrow> Some (Inl e)
            | Some (Inr s') \<Rightarrow> general_loop render s'))
      else Some (Inr s))"

section \<open>The section nearest to the end of the file\<close>

text \<open>
  The body of the loop \<^verbatim>\<open>while NEAREST_EOF_SECTION\<close> behind the test for the end of
  the file (lines 285 to 303). The \<^verbatim>\<open>try\<close> statement catches a
  \<^verbatim>\<open>UnicodeDecodeError\<close> only: the bytes read so far stay read and scanning goes on.
  An index outside \<^verbatim>\<open>EOF_SECTION_KEYS\<close> is not caught.
\<close>

definition nearest_eof_body :: "byte list \<Rightarrow> pstate \<Rightarrow> error + pstate" where
  "nearest_eof_body chunk s =
     (if CURRENT_MODE s = NULL_DATA_MODE then
        (if chunk = [0x0A, 0x00] \<or> chunk = [0x00, 0x0A]
         then Inr (s\<lparr>fobj := snd (read 10 (fobj s))\<rparr>)
         else
           (case decode chunk of
              Inl e \<Rightarrow> Inr s
            | Inr t \<Rightarrow>
                if alnum_len t \<ge> 1 then
                  (let (extra, f1) = read 2 (fobj s); chunk' = chunk @ extra in
                   case decode chunk' of
                     Inl e \<Rightarrow> Inr (s\<lparr>fobj := f1\<rparr>)
                   | Inr t' \<Rightarrow>
                       if length (eof_sub t') \<ge> 2 \<and> 0x00 \<in> set chunk' then
                         (let i = CURRENT_EOF_SECTION_KEY s + 1 in
                          case py_index EOF_SECTION_KEYS i of
                            None \<Rightarrow> Inl IndexError
                          | Some k \<Rightarrow>
                              Inr (s\<lparr>fobj := f1, CURRENT_EOF_SECTION_KEY := i,
                                     parsed_value_dict := (parsed_value_dict s)(k \<mapsto> PyStr t'),
                                     CURRENT_MODE := VALUE_READ_MODE\<rparr>))
                       else Inr (s\<lparr>fobj := f1\<rparr>))
                else Inr s))
      else if CURRENT_MODE s = VALUE_READ_MODE then
        (case py_index EOF_SECTION_KEYS (CURRENT_EOF_SECTION_KEY s) of
           None \<Rightarrow> Inl IndexError
         | Some k \<Rightarrow>
             if chunk = [0x00, 0x00] then
               (case dict_stripped (parsed_value_dict s) k of
                  Inl e \<Rightarrow> Inl e
                | Inr v \<Rightarrow>
                    Inr (s\<lparr>parsed_value_dict := (parsed_value_dict s)(k \<mapsto> PyStr v),
                           CURRENT_MODE := NULL_DATA_MODE\<rparr>))
             else
               (case dict_append (parsed_value_dict s) k chunk of
                  Inl e \<Rightarrow> Inl e
                | Inr d \<Rightarrow> Inr (s\<lparr>parsed_value_dict := d\<rparr>)))
      else Inr s)"

partial_function (option) nearest_eof_loop :: "pstate \<Rightarrow> (error + pstate) option" where
  "nearest_eof_loop s =
     (if NEAREST_EOF_SECTION s then
        (let (chunk, f1) = read 2 (fobj s) in
         if chunk = [] then Some (Inr (s\<lparr>fobj := f1, NEAREST_EOF_SECTION := False\<rparr>))
         else
           (case nearest_eof_body chunk (s\<lparr>fobj := f1\<rparr>) of
              Inl e \<Rightarrow> Some (Inl e)
            | Inr s' \<Rightarrow> nearest_eof_loop s'))
      else Some (Inr s))"

section \<open>\<^verbatim>\<open>parse_detection_history\<close>\<close>

text \<open>
  The function from the bytes of the input file to the dictionary that it hands to
  \<^verbatim>\<open>json.dump\<close>; an exception leaves the function before anything is written. The
  value \<open>None\<close> stands for a run that does not end.
\<close>

definition initial_state :: "string \<Rightarrow> fileobj \<Rightarrow> pstate" where
  "initial_state guid f =
     \<lparr>fobj = f,
      parsed_value_dict = [''GUID'' \<mapsto> PyStr guid],
      temp_key = [],
      CURRENT_MODE = KEY_READ_MODE,
      LAST_READ_MODE = MODE_FF,
      MAGIC_VERSION_SECTION = True,
      GENERAL_SECTION = True,
      NEAREST_EOF_SECTION = True,
      CURRENT_EOF_SECTION_KEY = - 1\<rparr>"

text \<open>
  The loop of each of the three sections, one after the other (lines 172 to 305).
\<close>

definition decode_sections :: "(int \<Rightarrow> error + string) \<Rightarrow> pstate \<Rightarrow> (error + (string \<rightharpoonup> pyval)) option" where
  "decode_sections render s0 =
     (case magic_version_loop s0 of
        None \<Rightarrow> None
      | Some (Inl e) \<Rightarrow> Some (Inl e)
      | Some (Inr s1) \<Rightarrow>
          (case general_loop render s1 of
             None \<Rightarrow> None
           | Some (Inl e) \<Rightarrow> Some (Inl e)
           | Some (Inr s2) \<Rightarrow>
               (case nearest_eof_loop s2 of
                  None \<Rightarrow> None
                | Some (Inl e) \<Rightarrow> Some (Inl e)
                | Some (Inr s3) \<Rightarrow> Some (Inr (parsed_value_dict s3)))))"

definition parse_detection_history :: "(int \<Rightarrow> error + string) \<Rightarrow> byte list \<Rightarrow> (error + (string \<rightharpoonup> pyval)) option" where
  "parse_detection_history render content =
     (case parse_header_and_guid (fopen content) of
        Inl e \<Rightarrow> Some (Inl e)
      | Inr (guid, f1) \<Rightarrow> decode_sections render (initial_state guid (snd (read 8 f1))))"

section \<open>Lines 106 to 108: from the tick count to the text\<close>

text \<open>
  \<^verbatim>\<open>filetime_nanoseconds/10\<close> is Python's true division of two integers: the double
  nearest to the quotient, a tie going to the even mantissa. A double that is not
  negative is written here as a pair \<open>(m, k)\<close> of integers that stands for \<open>m * 2 ^ k\<close>,
  where \<open>m\<close> has at most 53 bits and \<open>k\<close> may be negative. The tick count is a sum of
  digits times powers of 16 and never negative; the functions below are meant for such
  counts only.
\<close>

type_synonym double = "int \<times> int"

text \<open>The integer nearest to \<open>a / b\<close> for \<open>b > 0\<close>, a tie going to the even one.\<close>

definition round_half_even :: "int \<Rightarrow> int \<Rightarrow> int" where
  "round_half_even a b =
     (let q = a div b; r = a mod b
      in if 2 * r < b then q else if b < 2 * r then q + 1 else if even q then q else q + 1)"

text \<open>The position of the highest bit: \<open>2 ^ log2_floor n \<le> n < 2 * 2 ^ log2_floor n\<close> for \<open>n > 0\<close>.\<close>

function log2_floor :: "int \<Rightarrow> int" where
  "log2_floor n = (if n < 2 then 0 else 1 + log2_floor (n div 2))"
  by pat_completeness auto
termination
  by (relation "measure nat") auto

declare log2_floor.simps [simp del]

text \<open>
  \<^verbatim>\<open>n/10\<close>: the binary exponent of the quotient is \<open>e\<close> with \<open>2 ^ e \<le> n / 10 < 2 * 2 ^ e\<close>
  (taken from \<open>16 * n div 10\<close>, so that it is found for \<open>n < 10\<close> as well), the unit in the
  last place is \<open>2 ^ k\<close> with \<open>k = e - 52\<close>, and the mantissa is the quotient in these
  units, rounded.
\<close>

definition true_div_10 :: "int \<Rightarrow> double" where
  "true_div_10 n =
     (if n \<le> 0 then (0, 0)
      else
        (let k = log2_floor (16 * n div 10) - 56
         in (if 0 \<le> k then round_half_even n (10 * 2 ^ nat k)
             else round_half_even (n * 2 ^ nat (- k)) 10,
             k)))"

text \<open>
  \<^verbatim>\<open>timedelta(microseconds=x)\<close> for a double \<open>x\<close>: the number of whole microseconds
  nearest to \<open>x\<close>, a tie going to the even one. A \<^verbatim>\<open>timedelta\<close> holds at most
  999999999 days.
\<close>

definition timedelta_microseconds :: "double \<Rightarrow> error + int" where
  "timedelta_microseconds x =
     (let (m, k) = x;
          us = (if 0 \<le> k then m * 2 ^ nat k else round_half_even m (2 ^ nat (- k)))
      in if 999999999 < us div 86400000000 then Inl OverflowError else Inr us)"

record datetime =
  year :: int
  month :: int
  day :: int
  hour :: int
  minute :: int
  second :: int

definition is_leap :: "int \<Rightarrow> bool" where
  "is_leap y = (y mod 4 = 0 \<and> (y mod 100 \<noteq> 0 \<or> y mod 400 = 0))"

definition days_in_months :: "int \<Rightarrow> int list" where
  "days_in_months y = [31, if is_leap y then 29 else 28, 31, 30, 31, 30, 31, 31, 30, 31, 30, 31]"

text \<open>The month and the day of the month of day \<open>n\<close> of a year, both counted from 1.\<close>

fun month_and_day :: "int list \<Rightarrow> int \<Rightarrow> int \<Rightarrow> int \<times> int" where
  "month_and_day [] m n = (m, n + 1)"
| "month_and_day (d # ds) m n = (if n < d then (m, n + 1) else month_and_day ds (m + 1) (n - d))"

text \<open>
  The date that lies \<open>n\<close> days behind the first of January 1601 in the proleptic
  Gregorian calendar of \<^verbatim>\<open>datetime\<close>. The year 1601 starts a cycle of 400 years, that
  is 146097 days; a century has 36524 days but for the last of the cycle, four years
  have 1461 days but for the last of a century.
\<close>

definition date_1601_plus :: "int \<Rightarrow> int \<times> int \<times> int" where
  "date_1601_plus n =
     (let n400 = n div 146097; r = n mod 146097;
          n100 = min (r div 36524) 3; r1 = r - n100 * 36524;
          n4 = r1 div 1461; r2 = r1 mod 1461;
          n1 = min (r2 div 365) 3; r3 = r2 - n1 * 365;
          y = 1601 + 400 * n400 + 100 * n100 + 4 * n4 + n1;
          (m, d) = month_and_day (days_in_months y) 1 r3
      in (y, m, d))"

text \<open>
  \<^verbatim>\<open>datetime(1601, 1, 1) + filetime_epoch\<close>. The largest date is the last day of the year
  9999, which is day 3067670 behind the first of January 1601; a later one raises
  \<^verbatim>\<open>OverflowError\<close>.
\<close>

definition datetime_1601_plus :: "int \<Rightarrow> error + datetime" where
  "datetime_1601_plus us =
     (let seconds = us div 1000000;
          days = seconds div 86400;
          s = seconds mod 86400
      in if 3067670 < days then Inl OverflowError
         else
           (let (y, m, d) = date_1601_plus days
            in Inr \<lparr>year = y, month = m, day = d,
                    hour = s div 3600, minute = s div 60 mod 60, second = s mod 60\<rparr>))"

definition dec_digit :: "int \<Rightarrow> char" where
  "dec_digit n = ''0123456789'' ! nat (n mod 10)"

definition two_digits :: "int \<Rightarrow> string" where
  "two_digits n = [dec_digit (n div 10), dec_digit n]"

definition four_digits :: "int \<Rightarrow> string" where
  "four_digits n = [dec_digit (n div 1000), dec_digit (n div 100), dec_digit (n div 10), dec_digit n]"

text \<open>\<^verbatim>\<open>filetime_date.strftime("%m-%d-%Y %H:%M:%S")\<close>\<close>

definition strftime :: "datetime \<Rightarrow> string" where
  "strftime t =
     two_digits (month t) @ ''-'' @ two_digits (day t) @ ''-'' @ four_digits (year t) @ '' ''
     @ two_digits (hour t) @ '':'' @ two_digits (minute t) @ '':'' @ two_digits (second t)"

text \<open>
  Lines 106 to 108 together. The program is \<open>parse_filetime filetime_text\<close>; the
  sections above take the function as an argument.
\<close>

definition filetime_text :: "int \<Rightarrow> error + string" where
  "filetime_text filetime_nanoseconds =
     (case timedelta_microseconds (true_div_10 filetime_nanoseconds) of
        Inl e \<Rightarrow> Inl e
      | Inr filetime_epoch \<Rightarrow>
          (case datetime_1601_plus filetime_epoch of
             Inl e \<Rightarrow> Inl e
           | Inr filetime_date \<Rightarrow> Inr (strftime filetime_date)))"

section \<open>Little-endian integers, as the specification words them\<close>

text \<open>
  The specification describes \<^verbatim>\<open>byte_swap_to_int\<close> by its contract: given raw bytes in
  little-endian order, return the unsigned integer value. These two functions state
  that contract, and are compared with the code below: \<open>le_value\<close> is the unsigned
  integer that a byte sequence encodes in little-endian order, \<open>le_bytes k n\<close> the
  little-endian encoding of \<open>n\<close> in \<open>k\<close> bytes.
\<close>

fun le_value :: "byte list \<Rightarrow> int" where
  "le_value [] = 0"
| "le_value (b # bs) = uint b + 256 * le_value bs"

fun le_bytes :: "nat \<Rightarrow> int \<Rightarrow> byte list" where
  "le_bytes 0 n = []"
| "le_bytes (Suc k) n = word_of_int (n mod 256) # le_bytes k (n div 256)"

text \<open>The two hex digits of a byte, as numbers; used in the proofs only.\<close>

definition nibbles :: "byte \<Rightarrow> int list" where
  "nibbles b = [int (unat b div 16), int (unat b mod 16)]"

section \<open>Properties\<close>

lemma read_Cons:
  "read (Suc 0) \<lparr>ahead = x # ys, tell = t\<rparr> = ([x], \<lparr>ahead = ys, tell = Suc t\<rparr>)"
  by (simp add: read_def)

lemma read_three:
  "read 3 \<lparr>ahead = x # y # z # ys, tell = t\<rparr> = ([x, y, z], \<lparr>ahead = ys, tell = t + 3\<rparr>)"
  by (simp add: read_def)

lemma find_value_start_zeros:
  "find_value_start [0] \<lparr>ahead = 0 # 0 # ys, tell = t\<rparr> = Some \<lparr>ahead = ys, tell = Suc (Suc t)\<rparr>"
  by (subst find_value_start.simps) (simp add: read_Cons)

lemma read_value_caution_zero:
  "read_value v [0x32] \<lparr>ahead = 0 # ys, tell = t\<rparr>
     = Some (PyBytes (hexlify v), \<lparr>ahead = ys, tell = Suc t\<rparr>)"
  by (subst read_value.simps) (simp add: read_Cons caution_sequences_def)

lemma scan_three_bytes_at:
  "parse_unmapped_value \<lparr>ahead = [0, 0, 0, a, b, c, 0x32, 0] @ rest, tell = t\<rparr>
     = Some (PyBytes (hexlify [a, b, c]), \<lparr>ahead = rest, tell = t + 8\<rparr>)"
proof -
  have "parse_unmapped_value \<lparr>ahead = [0, 0, 0, a, b, c, 0x32, 0] @ rest, tell = t\<rparr>
          = (let (unmapped_val, f3) = read 3 \<lparr>ahead = a # b # c # 0x32 # 0 # rest, tell = Suc (Suc (Suc t))\<rparr>;
                 (chunk', f4) = read 1 f3
             in read_value unmapped_val chunk' f4)"
    by (simp add: parse_unmapped_value_def read_Cons find_value_start_zeros)
  also have "\<dots> = read_value [a, b, c] [0x32] \<lparr>ahead = 0 # rest, tell = t + 7\<rparr>"
    by (simp add: read_three read_Cons add.commute)
  also have "\<dots> = Some (PyBytes (hexlify [a, b, c]), \<lparr>ahead = rest, tell = t + 8\<rparr>)"
    by (simp add: read_value_caution_zero)
  finally show ?thesis .
qed

text \<open>
  C1. On a stream that starts with three zero bytes, any three bytes \<open>a\<close>, \<open>b\<close>, \<open>c\<close>,
  the caution byte \<open>0x32\<close> and a zero byte, \<^verbatim>\<open>parse_unmapped_value\<close> returns, and the
  value it returns is the hex encoding of \<open>a\<close>, \<open>b\<close>, \<open>c\<close>. The bytes behind these eight
  are left unread.
\<close>

theorem parse_unmapped_value_three_bytes:
  "parse_unmapped_value (fopen ([0, 0, 0, a, b, c, 0x32, 0] @ rest))
     = Some (PyBytes (hexlify [a, b, c]), \<lparr>ahead = rest, tell = 8\<rparr>)"
proof -
  have "fopen ([0, 0, 0, a, b, c, 0x32, 0] @ rest)
          = \<lparr>ahead = [0, 0, 0, a, b, c, 0x32, 0] @ rest, tell = 0\<rparr>"
    by (simp add: fopen_def)
  then have "parse_unmapped_value (fopen ([0, 0, 0, a, b, c, 0x32, 0] @ rest))
          = Some (PyBytes (hexlify [a, b, c]), \<lparr>ahead = rest, tell = 0 + 8\<rparr>)"
    by (simp only: scan_three_bytes_at)
  then show ?thesis by simp
qed

lemma read_at_eof: "ahead f = [] \<Longrightarrow> read n f = ([], f)"
  by (simp add: read_def)

lemma find_value_start_needs_input:
  assumes "find_value_start chunk f = Some r"
  shows "ahead f \<noteq> []"
proof (rule find_value_start.raw_induct [where P = "\<lambda>chunk f r. ahead f \<noteq> []", OF _ assms])
  fix fvs :: "byte list \<Rightarrow> fileobj \<Rightarrow> fileobj option" and chunk f r
  assume IH: "\<And>c g y. fvs c g = Some y \<Longrightarrow> ahead g \<noteq> []"
    and step: "(if chunk = [0]
      then let (b1, f1) = read 1 f; chunk1 = chunk @ b1
           in if chunk1 = [0, 0]
              then let (b2, f2) = read 1 f1; chunk2 = chunk1 @ b2
                   in if chunk2 = [0, 0, 0] then Some f2 else fvs chunk2 f2
              else fvs chunk1 f1
      else let (b, f1) = read 1 f in fvs b f1) = Some r"
  show "ahead f \<noteq> []"
  proof
    assume eof: "ahead f = []"
    from step IH [of _ f] show False
      by (auto simp add: read_at_eof [OF eof] eof split: if_splits)
  qed
qed

lemma read_value_needs_input:
  assumes "read_value v chunk f = Some r"
  shows "ahead f \<noteq> []"
proof (rule read_value.raw_induct [where P = "\<lambda>v chunk f r. ahead f \<noteq> []", OF _ assms])
  fix rv :: "byte list \<Rightarrow> byte list \<Rightarrow> fileobj \<Rightarrow> (pyval \<times> fileobj) option" and v chunk f r
  assume IH: "\<And>v c g y. rv v c g = Some y \<Longrightarrow> ahead g \<noteq> []"
    and step: "(if chunk \<in> set caution_sequences
      then let (next_chunk, f1) = read 1 f
           in if next_chunk = [0] then Some (PyBytes (hexlify v), f1)
              else rv v next_chunk f1
      else let (c, f1) = read 1 f in rv (v @ chunk) c f1) = Some r"
  show "ahead f \<noteq> []"
  proof
    assume eof: "ahead f = []"
    from step IH [of _ _ f r] show False
      by (simp add: read_at_eof [OF eof] eof split: if_splits)
  qed
qed

lemma read_value_result:
  assumes "read_value v chunk f = Some r"
  shows "\<exists>extra. fst r = PyBytes (hexlify (v @ extra))"
proof (rule read_value.raw_induct [where P = "\<lambda>v chunk f r. \<exists>extra. fst r = PyBytes (hexlify (v @ extra))", OF _ assms])
  fix rv :: "byte list \<Rightarrow> byte list \<Rightarrow> fileobj \<Rightarrow> (pyval \<times> fileobj) option" and v chunk f r
  assume IH: "\<And>v c g y. rv v c g = Some y \<Longrightarrow> \<exists>extra. fst y = PyBytes (hexlify (v @ extra))"
    and step: "(if chunk \<in> set caution_sequences
      then let (next_chunk, f1) = read 1 f
           in if next_chunk = [0] then Some (PyBytes (hexlify v), f1)
              else rv v next_chunk f1
      else let (c, f1) = read 1 f in rv (v @ chunk) c f1) = Some r"
  show "\<exists>extra. fst r = PyBytes (hexlify (v @ extra))"
  proof (cases "chunk \<in> set caution_sequences")
    case True
    show ?thesis
    proof (cases "fst (read 1 f) = [0]")
      case z: True
      with True step have "fst r = PyBytes (hexlify (v @ []))"
        by (auto split: prod.splits)
      then show ?thesis by blast
    next
      case nz: False
      with True step have "rv v (fst (read 1 f)) (snd (read 1 f)) = Some r"
        by (auto split: prod.splits)
      then show ?thesis by (rule IH)
    qed
  next
    case False
    with step have "rv (v @ chunk) (fst (read 1 f)) (snd (read 1 f)) = Some r"
      by (auto split: prod.splits)
    from IH [OF this] obtain extra where "fst r = PyBytes (hexlify ((v @ chunk) @ extra))" by blast
    then have "fst r = PyBytes (hexlify (v @ (chunk @ extra)))" by simp
    then show ?thesis by blast
  qed
qed

lemma read_value_at_eof: "read_value v chunk \<lparr>ahead = [], tell = t\<rparr> = None"
  using read_value_needs_input [of v chunk "\<lparr>ahead = [], tell = t\<rparr>"]
  by (cases "read_value v chunk \<lparr>ahead = [], tell = t\<rparr>") auto

lemma find_value_start_at_eof: "find_value_start chunk \<lparr>ahead = [], tell = t\<rparr> = None"
  using find_value_start_needs_input [of chunk "\<lparr>ahead = [], tell = t\<rparr>"]
  by (cases "find_value_start chunk \<lparr>ahead = [], tell = t\<rparr>") auto

text \<open>
  C2. The claim is that a stream that ends while \<^verbatim>\<open>parse_unmapped_value\<close> is running
  makes the decode fail with an error. The code has no such path: at the end of the
  file \<^verbatim>\<open>file.read(1)\<close> returns the empty \<^verbatim>\<open>bytes\<close> object, which is neither
  \<^verbatim>\<open>b'\x00'\<close> nor a caution byte, and either loop goes on reading it for ever. On each
  of these truncated streams the scanner does not return at all: the empty stream, a
  stream that ends inside the run of zero bytes, one that ends behind the three value
  bytes, and one that ends behind a caution byte.
\<close>

theorem parse_unmapped_value_truncated:
  "parse_unmapped_value (fopen []) = None
   \<and> parse_unmapped_value (fopen [0, 0]) = None
   \<and> parse_unmapped_value (fopen [0, 0, 0, 1, 2, 3]) = None
   \<and> parse_unmapped_value (fopen [0, 0, 0, 1, 2, 3, 0x32]) = None"
proof -
  have "parse_unmapped_value (fopen []) = None"
    by (simp add: parse_unmapped_value_def fopen_def read_def find_value_start_at_eof)
  moreover have "find_value_start [0] \<lparr>ahead = [0], tell = Suc 0\<rparr> = None"
    by (subst find_value_start.simps) (simp add: read_Cons read_def find_value_start_at_eof)
  then have "parse_unmapped_value (fopen [0, 0]) = None"
    by (simp add: parse_unmapped_value_def fopen_def read_Cons)
  moreover have "parse_unmapped_value (fopen [0, 0, 0, 1, 2, 3]) = None"
    by (simp add: parse_unmapped_value_def fopen_def read_Cons find_value_start_zeros read_three
        read_def read_value_at_eof)
  moreover have "parse_unmapped_value (fopen [0, 0, 0, 1, 2, 3, 0x32]) = None"
    by (simp add: parse_unmapped_value_def fopen_def read_Cons find_value_start_zeros read_three
        read_value_at_eof)
  ultimately show ?thesis by simp
qed

text \<open>
  C10. Whenever \<^verbatim>\<open>parse_unmapped_value\<close> returns, the value is a \<^verbatim>\<open>bytes\<close> object:
  the hex encoding of the accumulated run, which starts with the (up to) three bytes
  read behind the three zero bytes. It is never the integer \<open>0\<close> of the statement
  behind the loop.
\<close>

theorem parse_unmapped_value_returns_hex:
  "parse_unmapped_value f = Some (v, f') \<Longrightarrow>
     (\<exists>f2 extra. find_value_start (fst (read 1 f)) (snd (read 1 f)) = Some f2
        \<and> v = PyBytes (hexlify (fst (read 3 f2) @ extra)))
     \<and> v \<noteq> PyInt 0"
proof -
  assume ret: "parse_unmapped_value f = Some (v, f')"
  then obtain f2 where f2: "find_value_start (fst (read 1 f)) (snd (read 1 f)) = Some f2"
    by (auto simp add: parse_unmapped_value_def split: prod.splits option.splits)
  with ret have "read_value (fst (read 3 f2)) (fst (read 1 (snd (read 3 f2))))
                   (snd (read 1 (snd (read 3 f2)))) = Some (v, f')"
    by (auto simp add: parse_unmapped_value_def split: prod.splits option.splits)
  from read_value_result [OF this] obtain extra
    where "v = PyBytes (hexlify (fst (read 3 f2) @ extra))" by auto
  with f2 show ?thesis by auto
qed

theorem parse_unmapped_value_returns_hex_witness:
  "parse_unmapped_value (fopen [0, 0, 0, 1, 2, 3, 0x32, 0])
     = Some (PyBytes ''010203'', \<lparr>ahead = [], tell = 8\<rparr>)
   \<and> PyBytes ''010203'' \<noteq> PyInt 0"
proof -
  have ret: "parse_unmapped_value (fopen [0, 0, 0, 1, 2, 3, 0x32, 0])
          = Some (PyBytes ''010203'', \<lparr>ahead = [], tell = 8\<rparr>)"
    using scan_three_bytes_at [of 1 2 3 "[]" 0]
    by (simp add: fopen_def hexlify_def hexbyte_def hexdigit_def)
  from parse_unmapped_value_returns_hex [OF ret] ret show ?thesis by simp
qed

lemma pairs_of_hexlify: "pairs_of (hexlify bs) = map hexbyte bs"
  by (induction bs) (simp_all add: hexlify_def hexbyte_def)

lemma swap_endianness_hexlify: "swap_endianness (hexlify bs) = hexlify (rev bs)"
  unfolding swap_endianness_def pairs_of_hexlify by (simp add: hexlify_def rev_map)

lemma nat_less_16_cases:
  "n < 16 \<Longrightarrow> n \<in> {0, 1, 2, 3, 4, 5, 6, 7, 8, 9, 10, 11, 12, 13, 14, 15::nat}"
  by (simp; arith)

lemma int16_hexdigit:
  assumes "n < 16"
  shows "int16 (hexdigit n) = Inr (int n)"
  using nat_less_16_cases [OF assms] by (elim insertE emptyE; simp add: int16_def hexdigit_def)

lemma digits16_append:
  "digits16 xs = Inr ds \<Longrightarrow> digits16 ys = Inr es \<Longrightarrow> digits16 (xs @ ys) = Inr (ds @ es)"
  by (induction xs arbitrary: ds) (auto split: sum.splits)

lemma unat_byte_div: "unat (b :: byte) div 16 < 16"
proof -
  have "unat b < 256" using unsigned_less [of b, where ?'a = nat] by simp
  then show ?thesis by simp
qed

lemma digits16_hexbyte: "digits16 (hexbyte b) = Inr (nibbles b)"
  by (simp add: hexbyte_def nibbles_def int16_hexdigit unat_byte_div)

lemma digits16_hexlify: "digits16 (hexlify bs) = Inr (concat (map nibbles bs))"
proof (induction bs)
  case Nil
  then show ?case by (simp add: hexlify_def)
next
  case (Cons b bs)
  have "hexlify (b # bs) = hexbyte b @ hexlify bs" by (simp add: hexlify_def)
  then show ?case using digits16_append [OF digits16_hexbyte Cons.IH] by simp
qed

lemma sum_digits_horner:
  "k \<le> length ds \<Longrightarrow>
     sum_digits ds (int k - 1) acc = acc + horner_sum (\<lambda>d. d) 16 (take k (rev ds))"
proof (induction k arbitrary: acc)
  case 0
  then show ?case by simp
next
  case (Suc k)
  then have k: "k < length ds" by simp
  have idx: "nat \<bar>int (length ds) - 1 - int k\<bar> = length ds - Suc k"
    using k by simp
  have "sum_digits ds (int k) acc
          = sum_digits ds (int k - 1) (acc + ds ! (length ds - Suc k) * 16 ^ k)"
    by (subst sum_digits.simps) (simp add: idx)
  then have "sum_digits ds (int (Suc k) - 1) acc
          = sum_digits ds (int k - 1) (acc + ds ! (length ds - Suc k) * 16 ^ k)"
    by simp
  also have "\<dots> = acc + ds ! (length ds - Suc k) * 16 ^ k + horner_sum (\<lambda>d. d) 16 (take k (rev ds))"
    using Suc.IH k by simp
  also have "take (Suc k) (rev ds) = take k (rev ds) @ [ds ! (length ds - Suc k)]"
    using k by (simp add: take_Suc_conv_app_nth rev_nth)
  then have "acc + ds ! (length ds - Suc k) * 16 ^ k + horner_sum (\<lambda>d. d) 16 (take k (rev ds))
               = acc + horner_sum (\<lambda>d. d) 16 (take (Suc k) (rev ds))"
    using k by (simp add: horner_sum_append)
  finally show ?case .
qed

lemma horner_nibbles:
  "horner_sum (\<lambda>d. d) 16 (concat (map (rev \<circ> nibbles) bs)) = le_value bs"
proof (induction bs)
  case Nil
  then show ?case by simp
next
  case (Cons b bs)
  have "int (unat b mod 16) + 16 * int (unat b div 16) = uint b"
    by (simp add: zmod_int zdiv_int flip: of_nat_mult of_nat_add)
  then show ?case using Cons.IH
    by (simp add: nibbles_def horner_sum_append algebra_simps)
qed

lemma byte_swap_to_int_hexlify:
  "byte_swap_to_int (hexlify bs) False = Inr (PyInt (le_value bs))"
proof -
  let ?ds = "concat (map nibbles (rev bs))"
  have "sum_digits ?ds (int (length ?ds) - 1) 0 = horner_sum (\<lambda>d. d) 16 (rev ?ds)"
    using sum_digits_horner [of "length ?ds" ?ds 0] by simp
  also have "rev ?ds = concat (map (rev \<circ> nibbles) bs)"
    by (simp add: rev_concat rev_map)
  finally show ?thesis
    by (simp add: byte_swap_to_int_def swap_endianness_hexlify digits16_hexlify horner_nibbles)
qed

lemma le_value_bounds: "0 \<le> le_value bs \<and> le_value bs < 256 ^ length bs"
proof (induction bs)
  case Nil
  then show ?case by simp
next
  case (Cons b bs)
  have "uint b < 256" using uint_bounded [of b] by simp
  moreover have "0 \<le> uint b" by simp
  ultimately show ?case using Cons.IH by simp
qed

lemma le_bytes_le_value: "le_bytes (length bs) (le_value bs) = bs"
proof (induction bs)
  case Nil
  then show ?case by simp
next
  case (Cons b bs)
  have lt: "uint b < 256" using uint_bounded [of b] by simp
  have "(uint b + 256 * le_value bs) mod 256 = uint b"
    using lt by simp
  moreover have "(uint b + 256 * le_value bs) div 256 = le_value bs"
    using lt by simp
  ultimately show ?case using Cons.IH by simp
qed

text \<open>
  C7. For every eight bytes \<open>bs\<close>, \<^verbatim>\<open>byte_swap_to_int\<close> applied to their hex
  representation returns the unsigned integer that \<open>bs\<close> encodes in little-endian
  order; it lies below \<open>2 ^ 64\<close>, and its little-endian encoding in eight bytes is \<open>bs\<close>
  again.
\<close>

theorem byte_swap_to_int_round_trip:
  "length bs = 8 \<Longrightarrow>
     byte_swap_to_int (hexlify bs) False = Inr (PyInt (le_value bs))
     \<and> 0 \<le> le_value bs \<and> le_value bs < 2 ^ 64
     \<and> le_bytes 8 (le_value bs) = bs"
proof -
  assume len: "length bs = 8"
  have "le_value bs < 256 ^ length bs" using le_value_bounds by blast
  then have "le_value bs < 2 ^ 64" using len by simp
  moreover have "le_bytes 8 (le_value bs) = bs"
    using le_bytes_le_value [of bs] len by simp
  ultimately show ?thesis
    using le_value_bounds [of bs] by (simp add: byte_swap_to_int_hexlify)
qed

theorem byte_swap_to_int_round_trip_witness:
  "length [0x80, 0x96, 0x98, 0, 0, 0, 0, 0 :: byte] = 8
   \<and> byte_swap_to_int (hexlify [0x80, 0x96, 0x98, 0, 0, 0, 0, 0]) False = Inr (PyInt 10000000)
   \<and> le_bytes 8 10000000 = [0x80, 0x96, 0x98, 0, 0, 0, 0, 0]"
  using byte_swap_to_int_round_trip [of "[0x80, 0x96, 0x98, 0, 0, 0, 0, 0]"] by simp

lemma swap_octs_five:
  "swap_octs 0 [a, b, c, d, e]
     = [concat (rev (pairs_of a)), concat (rev (pairs_of b)), concat (rev (pairs_of c)), d, e]"
proof -
  have "swap_octs 3 [concat (rev (pairs_of a)), concat (rev (pairs_of b)), concat (rev (pairs_of c)), d, e]
          = [concat (rev (pairs_of a)), concat (rev (pairs_of b)), concat (rev (pairs_of c)), d, e]"
    by (subst swap_octs.simps) simp
  moreover have "swap_octs 2 [concat (rev (pairs_of a)), concat (rev (pairs_of b)), c, d, e]
          = swap_octs 3 [concat (rev (pairs_of a)), concat (rev (pairs_of b)), concat (rev (pairs_of c)), d, e]"
    by (subst swap_octs.simps) simp
  moreover have "swap_octs 1 [concat (rev (pairs_of a)), b, c, d, e]
          = swap_octs 2 [concat (rev (pairs_of a)), concat (rev (pairs_of b)), c, d, e]"
    by (subst swap_octs.simps) simp
  moreover have "swap_octs 0 [a, b, c, d, e] = swap_octs 1 [concat (rev (pairs_of a)), b, c, d, e]"
    by (subst swap_octs.simps) simp
  ultimately show ?thesis by simp
qed

lemma length_hexlify: "length (hexlify bs) = 2 * length bs"
  by (induction bs) (simp_all add: hexlify_def hexbyte_def)

lemma hexdigit_in: "n < 16 \<Longrightarrow> hexdigit n \<in> set ''0123456789abcdef''"
  using nat_less_16_cases [of n] by (auto simp add: hexdigit_def)

lemma hexlify_chars: "set (hexlify bs) \<subseteq> set ''0123456789abcdef''"
proof (induction bs)
  case Nil
  then show ?case by (simp add: hexlify_def)
next
  case (Cons b bs)
  have "unat b mod 16 < 16" by simp
  from hexdigit_in [OF this] hexdigit_in [OF unat_byte_div [of b]] Cons.IH
  show ?case by (simp add: hexlify_def hexbyte_def)
qed

lemma parse_header_and_guid_ok:
  assumes "length pad = 18" and "length g = 16"
  shows "parse_header_and_guid (fopen (header_magic @ pad @ g @ rest))
     = Inr (hexlify (rev (take 4 g)) @ ''-'' @ hexlify (rev (take 2 (drop 4 g))) @ ''-''
            @ hexlify (rev (take 2 (drop 6 g))) @ ''-'' @ hexlify (take 2 (drop 8 g)) @ ''-''
            @ hexlify (drop 10 g),
            \<lparr>ahead = rest, tell = 40\<rparr>)"
proof -
  have r6: "read 6 (fopen (header_magic @ pad @ g @ rest))
              = (header_magic, \<lparr>ahead = pad @ g @ rest, tell = 6\<rparr>)"
    by (simp add: read_def fopen_def header_magic_def)
  have r18: "read 18 \<lparr>ahead = pad @ g @ rest, tell = 6\<rparr> = (pad, \<lparr>ahead = g @ rest, tell = 24\<rparr>)"
    using assms by (simp add: read_def)
  have g4: "read 4 \<lparr>ahead = g @ rest, tell = 24\<rparr> = (take 4 g, \<lparr>ahead = drop 4 g @ rest, tell = 28\<rparr>)"
    using assms by (simp add: read_def)
  have g2a: "read 2 \<lparr>ahead = drop 4 g @ rest, tell = 28\<rparr>
               = (take 2 (drop 4 g), \<lparr>ahead = drop 6 g @ rest, tell = 30\<rparr>)"
    using assms by (simp add: read_def)
  have g2b: "read 2 \<lparr>ahead = drop 6 g @ rest, tell = 30\<rparr>
               = (take 2 (drop 6 g), \<lparr>ahead = drop 8 g @ rest, tell = 32\<rparr>)"
    using assms by (simp add: read_def)
  have g2c: "read 2 \<lparr>ahead = drop 8 g @ rest, tell = 32\<rparr>
               = (take 2 (drop 8 g), \<lparr>ahead = drop 10 g @ rest, tell = 34\<rparr>)"
    using assms by (simp add: read_def)
  have g6: "read 6 \<lparr>ahead = drop 10 g @ rest, tell = 34\<rparr>
               = (drop 10 g, \<lparr>ahead = rest, tell = 40\<rparr>)"
    using assms by (simp add: read_def)
  show ?thesis
    unfolding parse_header_and_guid_def r6
    by (simp add: r18 g4 g2a g2b g2c g6 swap_octs_five
        swap_endianness_hexlify [unfolded swap_endianness_def])
qed

text \<open>
  C9. Behind a valid header and the 18 skipped bytes, \<^verbatim>\<open>parse_header_and_guid\<close> turns
  every 16-byte region \<open>g\<close> into five groups of 4, 2, 2, 2 and 6 bytes, hex-encodes
  them with the byte order reversed in the first three groups only, and joins them
  with dashes. The result has 36 characters: groups of 8, 4, 4, 4 and 12 lowercase
  hex digits. The file is left behind the region, at offset 40.
\<close>

theorem parse_header_and_guid_identifier:
  assumes "length pad = 18" and "length g = 16"
  shows "\<exists>a b c d e.
     parse_header_and_guid (fopen (header_magic @ pad @ g @ rest))
       = Inr (a @ ''-'' @ b @ ''-'' @ c @ ''-'' @ d @ ''-'' @ e, \<lparr>ahead = rest, tell = 40\<rparr>)
     \<and> a = hexlify (rev (take 4 g)) \<and> b = hexlify (rev (take 2 (drop 4 g)))
     \<and> c = hexlify (rev (take 2 (drop 6 g))) \<and> d = hexlify (take 2 (drop 8 g))
     \<and> e = hexlify (drop 10 g)
     \<and> length a = 8 \<and> length b = 4 \<and> length c = 4 \<and> length d = 4 \<and> length e = 12
     \<and> length (a @ ''-'' @ b @ ''-'' @ c @ ''-'' @ d @ ''-'' @ e) = 36
     \<and> set (a @ b @ c @ d @ e) \<subseteq> set ''0123456789abcdef''"
proof -
  have "set (hexlify (rev (take 4 g)) @ hexlify (rev (take 2 (drop 4 g)))
            @ hexlify (rev (take 2 (drop 6 g))) @ hexlify (take 2 (drop 8 g))
            @ hexlify (drop 10 g)) \<subseteq> set ''0123456789abcdef''"
    using hexlify_chars by (simp del: set_simps list.set)
  then show ?thesis
    using assms parse_header_and_guid_ok [OF assms, of rest]
    by (simp add: length_hexlify del: set_simps list.set set_append)
qed

theorem parse_header_and_guid_identifier_witness:
  "length (replicate 18 (0 :: byte)) = 18
   \<and> length [1, 2, 3, 4, 5, 6, 7, 8, 9, 10, 11, 12, 13, 14, 15, 16 :: byte] = 16
   \<and> parse_header_and_guid (fopen (header_magic @ replicate 18 0
         @ [1, 2, 3, 4, 5, 6, 7, 8, 9, 10, 11, 12, 13, 14, 15, 16] @ [0xAA]))
       = Inr (''04030201-0605-0807-090a-0b0c0d0e0f10'', \<lparr>ahead = [0xAA], tell = 40\<rparr>)"
  using parse_header_and_guid_identifier
    [of "replicate 18 0" "[1, 2, 3, 4, 5, 6, 7, 8, 9, 10, 11, 12, 13, 14, 15, 16]" "[0xAA]"]
  by (auto simp add: hexlify_def hexbyte_def hexdigit_def)

lemma parse_header_and_guid_bad:
  "take 6 content \<noteq> header_magic \<Longrightarrow> parse_header_and_guid (fopen content) = Inl IOError"
  by (simp add: parse_header_and_guid_def read_def fopen_def)

lemma parse_header_and_guid_good:
  "take 6 content = header_magic \<Longrightarrow>
     \<exists>guid f'. parse_header_and_guid (fopen content) = Inr (guid, f') \<and> ahead f' = drop 40 content"
  by (simp add: parse_header_and_guid_def read_def fopen_def split: prod.splits)

text \<open>
  C5. When the first six bytes of the input differ from \<^verbatim>\<open>08 00 00 00 08 00\<close> (also
  when the input has fewer than six bytes), \<^verbatim>\<open>parse_header_and_guid\<close> raises
  \<^verbatim>\<open>IOError\<close> and \<^verbatim>\<open>parse_detection_history\<close> ends with that exception, without a
  dictionary. When they are equal, the function returns an identifier, the file stands
  behind byte 40, and the decoding goes on with the three sections.
\<close>

theorem header_validation:
  "(take 6 content \<noteq> header_magic \<longrightarrow>
      parse_header_and_guid (fopen content) = Inl IOError
      \<and> parse_detection_history render content = Some (Inl IOError))
   \<and> (take 6 content = header_magic \<longrightarrow>
      (\<exists>guid f'. parse_header_and_guid (fopen content) = Inr (guid, f')
         \<and> ahead f' = drop 40 content
         \<and> parse_detection_history render content
             = decode_sections render (initial_state guid (snd (read 8 f')))))"
proof (intro conjI impI)
  assume bad: "take 6 content \<noteq> header_magic"
  then show "parse_header_and_guid (fopen content) = Inl IOError"
    by (rule parse_header_and_guid_bad)
  then show "parse_detection_history render content = Some (Inl IOError)"
    by (simp add: parse_detection_history_def)
next
  assume "take 6 content = header_magic"
  from parse_header_and_guid_good [OF this] obtain guid f'
    where ok: "parse_header_and_guid (fopen content) = Inr (guid, f')"
      and pos: "ahead f' = drop 40 content" by blast
  from ok have "parse_detection_history render content
                  = decode_sections render (initial_state guid (snd (read 8 f')))"
    by (simp add: parse_detection_history_def)
  with ok pos show "\<exists>guid f'. parse_header_and_guid (fopen content) = Inr (guid, f')
         \<and> ahead f' = drop 40 content
         \<and> parse_detection_history render content
             = decode_sections render (initial_state guid (snd (read 8 f')))" by blast
qed

theorem header_validation_witness:
  "take 6 [0x08, 0x00, 0x00, 0x00, 0x08, 0x01, 0x00] \<noteq> header_magic
   \<and> parse_header_and_guid (fopen [0x08, 0x00, 0x00, 0x00, 0x08, 0x01, 0x00]) = Inl IOError
   \<and> parse_detection_history (\<lambda>ticks. Inl OverflowError) [0x08, 0x00, 0x00, 0x00, 0x08, 0x01, 0x00]
        = Some (Inl IOError)
   \<and> take 6 [0x08, 0x00, 0x00, 0x00, 0x08, 0x00, 0x07] = header_magic
   \<and> (\<exists>guid f'. parse_header_and_guid (fopen [0x08, 0x00, 0x00, 0x00, 0x08, 0x00, 0x07])
                    = Inr (guid, f'))"
proof -
  have bad: "take 6 [0x08, 0x00, 0x00, 0x00, 0x08, 0x01, 0x00] \<noteq> header_magic"
    by (simp add: header_magic_def)
  have good: "take 6 [0x08, 0x00, 0x00, 0x00, 0x08, 0x00, 0x07] = header_magic"
    by (simp add: header_magic_def)
  from header_validation [of "[0x08, 0x00, 0x00, 0x00, 0x08, 0x01, 0x00]" "\<lambda>ticks. Inl OverflowError"] bad
  have "parse_header_and_guid (fopen [0x08, 0x00, 0x00, 0x00, 0x08, 0x01, 0x00]) = Inl IOError
     \<and> parse_detection_history (\<lambda>ticks. Inl OverflowError) [0x08, 0x00, 0x00, 0x00, 0x08, 0x01, 0x00]
        = Some (Inl IOError)" by blast
  moreover from header_validation [of "[0x08, 0x00, 0x00, 0x00, 0x08, 0x00, 0x07]" "\<lambda>ticks. Inl OverflowError"] good
  have "\<exists>guid f'. parse_header_and_guid (fopen [0x08, 0x00, 0x00, 0x00, 0x08, 0x00, 0x07])
                    = Inr (guid, f')" by blast
  ultimately show ?thesis using bad good by blast
qed

lemma magic_version_body_242:
  assumes "CURRENT_MODE s = NULL_DATA_MODE" and "tell (fobj s) = 242"
    and "magic_version_body chunk s = Inr s'"
  shows "parsed_value_dict s' ''ThreatStatusID'' = Some (PyInt (le_value chunk))"
  using assms
  by (auto simp add: magic_version_body_def byte_swap_to_int_hexlify Let_def
      split: sum.splits if_splits prod.splits)

lemma dict_append_other:
  "dict_append d k chunk = Inr d' \<Longrightarrow> k \<noteq> k' \<Longrightarrow> d' k' = d k'"
  by (auto simp add: dict_append_def split: option.splits sum.splits pyval.splits)

lemma general_null_status:
  assumes "general_null chunk s = Inr s'"
    and "LAST_READ_MODE s = KEY_READ_MODE \<longrightarrow> temp_key s \<noteq> ''ThreatStatusID''"
  shows "parsed_value_dict s' ''ThreatStatusID'' = parsed_value_dict s ''ThreatStatusID''"
  using assms
  by (auto simp add: general_null_def Let_def dict_append_other
      split: sum.splits if_splits prod.splits)

lemma decode_05: "decode [0x05, 0x00] = Inr [CHR 0x05, CHR 0x00]"
  by code_simp

lemma alnum_05: "alnum_len [CHR 0x05, CHR 0x00] = 0"
  by (simp add: alnum_len_def word_char_def)

lemma general_loop_at_eof:
  "ahead (fobj s) = [] \<Longrightarrow> GENERAL_SECTION s \<Longrightarrow>
     general_loop render s = Some (Inr (s\<lparr>GENERAL_SECTION := False\<rparr>))"
  by (subst general_loop.simps) (simp add: read_def)

lemma magic_version_loop_at_eof:
  "ahead (fobj s) = [] \<Longrightarrow> MAGIC_VERSION_SECTION s \<Longrightarrow>
     magic_version_loop s = Some (Inr (s\<lparr>MAGIC_VERSION_SECTION := False\<rparr>))"
  by (subst magic_version_loop.simps) (simp add: read_def)

text \<open>
  C3. The test \<^verbatim>\<open>f.tell()==242\<close> stands in the loop of the Magic Version section
  (line 202), not in the loop of the General section. In \<^verbatim>\<open>NULL_DATA_MODE\<close>, a pass of
  the Magic Version loop that finds the file at offset 242 behind its chunk and raises
  no decoding error stores the little-endian value of the chunk under
  \<^verbatim>\<open>ThreatStatusID\<close>. A pass of the General loop in \<^verbatim>\<open>NULL_DATA_MODE\<close> leaves the entry
  \<^verbatim>\<open>ThreatStatusID\<close> as it was, at every offset, unless that name itself is the key
  whose value is being collected.
\<close>

theorem threat_status_id_offset_242:
  "(CURRENT_MODE s = NULL_DATA_MODE \<and> tell (fobj s) = 242
      \<and> magic_version_body chunk s = Inr s'
    \<longrightarrow> parsed_value_dict s' ''ThreatStatusID'' = Some (PyInt (le_value chunk)))
   \<and> (CURRENT_MODE s = NULL_DATA_MODE
      \<and> (LAST_READ_MODE s = KEY_READ_MODE \<longrightarrow> temp_key s \<noteq> ''ThreatStatusID'')
      \<and> general_body render chunk s = Some (Inr s'')
    \<longrightarrow> parsed_value_dict s'' ''ThreatStatusID'' = parsed_value_dict s ''ThreatStatusID'')"
  using magic_version_body_242 [of s chunk s'] general_null_status [of chunk s s'']
  by (auto simp add: general_body_def)

theorem threat_status_id_offset_242_witness:
  "magic_version_body [0x05, 0x00]
      (initial_state [] \<lparr>ahead = [], tell = 242\<rparr>\<lparr>CURRENT_MODE := NULL_DATA_MODE\<rparr>)
     = Inr (initial_state [] \<lparr>ahead = [], tell = 242\<rparr>
             \<lparr>CURRENT_MODE := NULL_DATA_MODE,
              parsed_value_dict := [''GUID'' \<mapsto> PyStr [], ''ThreatStatusID'' \<mapsto> PyInt 5]\<rparr>)
   \<and> [''GUID'' \<mapsto> PyStr [], ''ThreatStatusID'' \<mapsto> PyInt 5] ''ThreatStatusID''
        = Some (PyInt (le_value [0x05, 0x00]))
   \<and> general_body (\<lambda>ticks. Inl OverflowError) [0x05, 0x00]
         (initial_state [] \<lparr>ahead = [], tell = 242\<rparr>\<lparr>CURRENT_MODE := NULL_DATA_MODE\<rparr>)
       = Some (Inr (initial_state [] \<lparr>ahead = [], tell = 242\<rparr>\<lparr>CURRENT_MODE := NULL_DATA_MODE\<rparr>))"
proof -
  let ?s = "initial_state [] \<lparr>ahead = [], tell = 242\<rparr>\<lparr>CURRENT_MODE := NULL_DATA_MODE\<rparr>"
  let ?s' = "initial_state [] \<lparr>ahead = [], tell = 242\<rparr>
             \<lparr>CURRENT_MODE := NULL_DATA_MODE,
              parsed_value_dict := [''GUID'' \<mapsto> PyStr [], ''ThreatStatusID'' \<mapsto> PyInt 5]\<rparr>"
  have m: "magic_version_body [0x05, 0x00] ?s = Inr ?s'"
    by (simp add: magic_version_body_def decode_05 alnum_05 initial_state_def
        byte_swap_to_int_hexlify)
  have g: "general_body (\<lambda>ticks. Inl OverflowError) [0x05, 0x00] ?s = Some (Inr ?s)"
    by (simp add: general_body_def general_null_def decode_05 alnum_05 initial_state_def)
  have pre: "CURRENT_MODE ?s = NULL_DATA_MODE \<and> tell (fobj ?s) = 242
      \<and> (LAST_READ_MODE ?s = KEY_READ_MODE \<longrightarrow> temp_key ?s \<noteq> ''ThreatStatusID'')"
    by (simp add: initial_state_def)
  from threat_status_id_offset_242 [of ?s "[0x05, 0x00]" ?s' "\<lambda>ticks. Inl OverflowError" ?s] m g pre
  show ?thesis by simp
qed

text \<open>
  The claim C3 as stated, for the General section, fails: the General loop reads the
  chunk \<^verbatim>\<open>05 00\<close> that ends at offset 242 in \<^verbatim>\<open>NULL_DATA_MODE\<close> and records nothing
  under \<^verbatim>\<open>ThreatStatusID\<close>.
\<close>

theorem general_section_no_offset_242:
  "general_loop (\<lambda>ticks. Inl OverflowError)
      (initial_state [] \<lparr>ahead = [0x05, 0x00], tell = 240\<rparr>\<lparr>CURRENT_MODE := NULL_DATA_MODE\<rparr>)
     = Some (Inr (initial_state [] \<lparr>ahead = [], tell = 242\<rparr>
                   \<lparr>CURRENT_MODE := NULL_DATA_MODE, GENERAL_SECTION := False\<rparr>))
   \<and> parsed_value_dict (initial_state [] \<lparr>ahead = [], tell = 242\<rparr>
                   \<lparr>CURRENT_MODE := NULL_DATA_MODE, GENERAL_SECTION := False\<rparr>)
         ''ThreatStatusID'' = None"
proof -
  let ?s = "initial_state [] \<lparr>ahead = [], tell = 242\<rparr>\<lparr>CURRENT_MODE := NULL_DATA_MODE\<rparr>"
  have body: "general_body (\<lambda>ticks. Inl OverflowError) [0x05, 0x00] ?s = Some (Inr ?s)"
    by (simp add: general_body_def general_null_def decode_05 alnum_05 initial_state_def)
  have rest: "general_loop (\<lambda>ticks. Inl OverflowError) ?s
                = Some (Inr (?s\<lparr>GENERAL_SECTION := False\<rparr>))"
    by (rule general_loop_at_eof) (simp_all add: initial_state_def)
  have rd: "read 2 \<lparr>ahead = [0x05, 0x00], tell = 240\<rparr> = ([0x05, 0x00], \<lparr>ahead = [], tell = 242\<rparr>)"
    by (simp add: read_def)
  have "general_loop (\<lambda>ticks. Inl OverflowError)
      (initial_state [] \<lparr>ahead = [0x05, 0x00], tell = 240\<rparr>\<lparr>CURRENT_MODE := NULL_DATA_MODE\<rparr>)
      = general_loop (\<lambda>ticks. Inl OverflowError) ?s"
    apply (subst general_loop.simps)
    using body by (simp add: initial_state_def rd)
  with rest show ?thesis by (simp add: initial_state_def)
qed

lemma hexlify_123: "hexlify [1, 2, 3] = ''010203''"
  by (simp add: hexlify_def hexbyte_def hexdigit_def)

lemma tracking_value_123:
  "tracking_value True \<lparr>ahead = [0, 0, 0, 1, 2, 3, 0x32, 0], tell = 300\<rparr>
     = Some (Inr (PyStr ''030201''), \<lparr>ahead = [], tell = 308\<rparr>)"
  using scan_three_bytes_at [of 1 2 3 "[]" 300]
  by (simp add: tracking_value_def hexlify_123 byte_swap_to_int_def swap_endianness_def)

lemma tracking_int_123:
  "tracking_value False \<lparr>ahead = [0, 0, 0, 1, 2, 3, 0x32, 0], tell = 300\<rparr>
     = Some (Inr (PyInt 197121), \<lparr>ahead = [], tell = 308\<rparr>)"
  using scan_three_bytes_at [of 1 2 3 "[]" 300] byte_swap_to_int_hexlify [of "[1, 2, 3]"]
  by (simp add: tracking_value_def)

text \<open>
  The part of C4 that the code does: a value that ends and whose text, without its
  zero characters, starts with \<^verbatim>\<open>Threat\<close> or \<^verbatim>\<open>regkey\<close> and holds neither
  \<^verbatim>\<open>ThreatTrackingThreatId\<close> nor \<^verbatim>\<open>ThreatTrackingSize\<close> empties the entry of the old
  key and becomes a key of its own, with an empty value and the next text read as its
  value.
\<close>

lemma general_value_end_rekey:
  assumes "dict_stripped (parsed_value_dict s) (temp_key s) = Inr final_value"
    and "contains ''Threat'' (take 6 final_value) \<or> contains ''regkey'' (take 6 final_value)"
    and "\<not> contains ''ThreatTrackingThreatId'' final_value"
    and "\<not> contains ''ThreatTrackingSize'' final_value"
  shows "general_value_end s
     = Some (Inr (s\<lparr>parsed_value_dict :=
                       ((parsed_value_dict s)(temp_key s \<mapsto> PyStr []))(final_value \<mapsto> PyStr []),
                     temp_key := final_value,
                     LAST_READ_MODE := KEY_READ_MODE,
                     CURRENT_MODE := NULL_DATA_MODE\<rparr>))"
  using assms by (simp add: general_value_end_def)

text \<open>
  C4. The claim lets every tracking-field name start the scanner when a value turns
  out to be a key. The code does so for \<^verbatim>\<open>ThreatTrackingThreatId\<close> and
  \<^verbatim>\<open>ThreatTrackingSize\<close> only (line 266). For the value text \<^verbatim>\<open>ThreatTrackingSigSeq\<close>
  the scanner is not run: the file stays where it is and the new key waits, empty, for
  a text value. The branch for a key that ends (line 250) does run the scanner for
  this name, on the same file, and so does the branch for a value with the name
  \<^verbatim>\<open>ThreatTrackingThreatId\<close>.
\<close>

theorem misclassified_sigseq_not_decoded:
  "general_body (\<lambda>ticks. Inl OverflowError) [0x00, 0x00]
      (initial_state [] \<lparr>ahead = [0, 0, 0, 1, 2, 3, 0x32, 0], tell = 300\<rparr>
         \<lparr>parsed_value_dict := [''ThreatName'' \<mapsto> PyStr ''ThreatTrackingSigSeq''],
          temp_key := ''ThreatName'',
          CURRENT_MODE := VALUE_READ_MODE,
          LAST_READ_MODE := KEY_READ_MODE\<rparr>)
     = Some (Inr (initial_state [] \<lparr>ahead = [0, 0, 0, 1, 2, 3, 0x32, 0], tell = 300\<rparr>
         \<lparr>parsed_value_dict := [''ThreatName'' \<mapsto> PyStr [], ''ThreatTrackingSigSeq'' \<mapsto> PyStr []],
          temp_key := ''ThreatTrackingSigSeq'',
          CURRENT_MODE := NULL_DATA_MODE,
          LAST_READ_MODE := KEY_READ_MODE\<rparr>))
   \<and> general_body (\<lambda>ticks. Inl OverflowError) [0x00, 0x00]
      (initial_state [] \<lparr>ahead = [0, 0, 0, 1, 2, 3, 0x32, 0], tell = 300\<rparr>
         \<lparr>temp_key := ''ThreatTrackingSigSeq'',
          CURRENT_MODE := KEY_READ_MODE\<rparr>)
     = Some (Inr (initial_state [] \<lparr>ahead = [], tell = 308\<rparr>
         \<lparr>parsed_value_dict := [''GUID'' \<mapsto> PyStr [], ''ThreatTrackingSigSeq'' \<mapsto> PyStr ''0x0000030201''],
          temp_key := [],
          CURRENT_MODE := NULL_DATA_MODE,
          LAST_READ_MODE := VALUE_READ_MODE\<rparr>))
   \<and> general_body (\<lambda>ticks. Inl OverflowError) [0x00, 0x00]
      (initial_state [] \<lparr>ahead = [0, 0, 0, 1, 2, 3, 0x32, 0], tell = 300\<rparr>
         \<lparr>parsed_value_dict := [''ThreatName'' \<mapsto> PyStr ''ThreatTrackingThreatId''],
          temp_key := ''ThreatName'',
          CURRENT_MODE := VALUE_READ_MODE,
          LAST_READ_MODE := KEY_READ_MODE\<rparr>)
     = Some (Inr (initial_state [] \<lparr>ahead = [], tell = 308\<rparr>
         \<lparr>parsed_value_dict := [''ThreatName'' \<mapsto> PyStr [], ''ThreatTrackingThreatId'' \<mapsto> PyInt 197121],
          temp_key := [],
          CURRENT_MODE := NULL_DATA_MODE,
          LAST_READ_MODE := VALUE_READ_MODE\<rparr>))"
  by (simp add: general_body_def general_value_end_def general_key_end_def dict_stripped_def
      strip_nul_def initial_state_def tracking_value_123 tracking_int_123)

lemma dict_append_dom: "dict_append d k chunk = Inr d' \<Longrightarrow> dom d' = dom d"
  by (auto simp add: dict_append_def split: option.splits sum.splits pyval.splits if_splits)

lemma py_index_in_set: "py_index xs i = Some k \<Longrightarrow> k \<in> set xs"
  by (auto simp add: py_index_def Let_def split: if_splits)

lemma dict_stripped_dom: "dict_stripped d k = Inr v \<Longrightarrow> k \<in> dom d"
  by (auto simp add: dict_stripped_def split: option.splits pyval.splits)

lemma nearest_eof_body_dom:
  assumes "nearest_eof_body chunk s = Inr s'"
  shows "dom (parsed_value_dict s') \<subseteq> dom (parsed_value_dict s) \<union> set EOF_SECTION_KEYS"
proof (cases "CURRENT_MODE s")
  case NULL_DATA_MODE
  with assms show ?thesis
    by (auto simp add: nearest_eof_body_def Let_def dest: py_index_in_set
        split: if_splits sum.splits prod.splits option.splits)
next
  case VALUE_READ_MODE
  with assms obtain k where k: "py_index EOF_SECTION_KEYS (CURRENT_EOF_SECTION_KEY s) = Some k"
    by (auto simp add: nearest_eof_body_def split: option.splits)
  then have kin: "k \<in> set EOF_SECTION_KEYS" by (rule py_index_in_set)
  show ?thesis
  proof (cases "chunk = [0x00, 0x00]")
    case True
    with assms VALUE_READ_MODE k kin show ?thesis
      by (auto simp add: nearest_eof_body_def split: sum.splits if_splits)
  next
    case False
    with assms VALUE_READ_MODE k obtain d
      where d: "dict_append (parsed_value_dict s) k chunk = Inr d"
        and s': "s' = s\<lparr>parsed_value_dict := d\<rparr>"
      by (auto simp add: nearest_eof_body_def split: sum.splits)
    from dict_append_dom [OF d] s' show ?thesis by simp
  qed
next
  case KEY_READ_MODE
  with assms show ?thesis by (simp add: nearest_eof_body_def)
next
  case MODE_FF
  with assms show ?thesis by (simp add: nearest_eof_body_def)
qed

lemma nearest_eof_loop_dom:
  assumes "nearest_eof_loop s = Some r"
  shows "\<forall>s'. r = Inr s' \<longrightarrow>
     dom (parsed_value_dict s') \<subseteq> dom (parsed_value_dict s) \<union> set EOF_SECTION_KEYS"
proof (rule nearest_eof_loop.raw_induct
    [where P = "\<lambda>s r. \<forall>s'. r = Inr s' \<longrightarrow>
       dom (parsed_value_dict s') \<subseteq> dom (parsed_value_dict s) \<union> set EOF_SECTION_KEYS", OF _ assms])
  fix loop :: "pstate \<Rightarrow> (error + pstate) option" and s r
  assume IH: "\<And>s r. loop s = Some r \<Longrightarrow> \<forall>s'. r = Inr s' \<longrightarrow>
       dom (parsed_value_dict s') \<subseteq> dom (parsed_value_dict s) \<union> set EOF_SECTION_KEYS"
    and step: "(if NEAREST_EOF_SECTION s
      then let (chunk, f1) = read 2 (fobj s)
           in if chunk = [] then Some (Inr (s\<lparr>fobj := f1, NEAREST_EOF_SECTION := False\<rparr>))
              else case nearest_eof_body chunk (s\<lparr>fobj := f1\<rparr>) of
                     Inl e \<Rightarrow> Some (Inl e) | Inr s' \<Rightarrow> loop s'
      else Some (Inr s)) = Some r"
  show "\<forall>s'. r = Inr s' \<longrightarrow>
       dom (parsed_value_dict s') \<subseteq> dom (parsed_value_dict s) \<union> set EOF_SECTION_KEYS"
  proof (intro allI impI)
    fix s' assume r: "r = Inr s'"
    show "dom (parsed_value_dict s') \<subseteq> dom (parsed_value_dict s) \<union> set EOF_SECTION_KEYS"
    proof (cases "NEAREST_EOF_SECTION s \<and> fst (read 2 (fobj s)) \<noteq> []")
      case False
      with step r show ?thesis by (auto split: prod.splits if_splits)
    next
      case True
      with step r obtain s1 where
        b: "nearest_eof_body (fst (read 2 (fobj s))) (s\<lparr>fobj := snd (read 2 (fobj s))\<rparr>) = Inr s1"
        and l: "loop s1 = Some (Inr s')"
        by (auto split: prod.splits sum.splits)
      from nearest_eof_body_dom [OF b]
      have "dom (parsed_value_dict s1) \<subseteq> dom (parsed_value_dict s) \<union> set EOF_SECTION_KEYS"
        by simp
      moreover from IH [OF l]
      have "dom (parsed_value_dict s') \<subseteq> dom (parsed_value_dict s1) \<union> set EOF_SECTION_KEYS"
        by simp
      ultimately show ?thesis by blast
    qed
  qed
qed

lemma nearest_eof_null_confirm:
  assumes "CURRENT_MODE s = NULL_DATA_MODE"
    and "chunk \<noteq> [0x0A, 0x00]" and "chunk \<noteq> [0x00, 0x0A]"
    and "decode chunk = Inr t" and "1 \<le> alnum_len t"
    and "read 2 (fobj s) = (extra, f1)" and "decode (chunk @ extra) = Inr t'"
    and "- 1 \<le> CURRENT_EOF_SECTION_KEY s"
  shows "nearest_eof_body chunk s =
          (if 2 \<le> length (eof_sub t') \<and> 0x00 \<in> set (chunk @ extra)
           then if CURRENT_EOF_SECTION_KEY s < 2
                then Inr (s\<lparr>fobj := f1,
                           CURRENT_EOF_SECTION_KEY := CURRENT_EOF_SECTION_KEY s + 1,
                           parsed_value_dict := (parsed_value_dict s)
                             (EOF_SECTION_KEYS ! nat (CURRENT_EOF_SECTION_KEY s + 1) \<mapsto> PyStr t'),
                           CURRENT_MODE := VALUE_READ_MODE\<rparr>)
                else Inl IndexError
           else Inr (s\<lparr>fobj := f1\<rparr>))"
  using assms
  by (auto simp add: nearest_eof_body_def py_index_def Let_def EOF_SECTION_KEYS_def)

lemma decode_A0: "decode [0x41, 0x00] = Inr [CHR ''A'', CHR 0x00]"
  by code_simp
lemma decode_A0B0: "decode [0x41, 0x00, 0x42, 0x00] = Inr [CHR ''A'', CHR 0x00, CHR ''B'', CHR 0x00]"
  by code_simp
lemma decode_AB: "decode [0x41, 0x42] = Inr ''AB''"
  by code_simp
lemma decode_ABCD: "decode [0x41, 0x42, 0x43, 0x44] = Inr ''ABCD''"
  by code_simp
lemma decode_A0S0: "decode [0x41, 0x00, 0x20, 0x00] = Inr [CHR ''A'', CHR 0x00, CHR '' '', CHR 0x00]"
  by code_simp

lemma alnum_A0: "alnum_len [CHR ''A'', CHR 0x00] = 1"
  by (simp add: alnum_len_def word_char_def)
lemma alnum_A0B0: "alnum_len [CHR ''A'', CHR 0x00, CHR ''B'', CHR 0x00] = 2"
  by (simp add: alnum_len_def word_char_def)
lemma alnum_AB: "alnum_len ''AB'' = 2"
  by (simp add: alnum_len_def word_char_def)
lemma alnum_ABCD: "alnum_len ''ABCD'' = 4"
  by (simp add: alnum_len_def word_char_def)
lemma alnum_A0S0: "alnum_len [CHR ''A'', CHR 0x00, CHR '' '', CHR 0x00] = 1"
  by (simp add: alnum_len_def word_char_def)

lemma upt_4: "[0 ..< 4] = [0, 1, 2, 3]"
  by (simp add: upt_rec)

lemma eof_sub_A0B0: "eof_sub [CHR ''A'', CHR 0x00, CHR ''B'', CHR 0x00] = ''AB''"
  by (simp add: eof_sub_def eof_kept_def is_digit_def ascii_alnum_def upt_4)
lemma eof_sub_ABCD: "eof_sub ''ABCD'' = ''ABCD''"
  by (simp add: eof_sub_def eof_kept_def is_digit_def ascii_alnum_def upt_4)
lemma eof_sub_A0S0: "eof_sub [CHR ''A'', CHR 0x00, CHR '' '', CHR 0x00] = ''A ''"
  by (simp add: eof_sub_def eof_kept_def is_digit_def ascii_alnum_def upt_4)

lemma nearest_eof_loop_step:
  "NEAREST_EOF_SECTION s \<Longrightarrow> read 2 (fobj s) = (chunk, f1) \<Longrightarrow> chunk \<noteq> [] \<Longrightarrow>
     nearest_eof_body chunk (s\<lparr>fobj := f1\<rparr>) = Inr s' \<Longrightarrow>
     nearest_eof_loop s = nearest_eof_loop s'"
  by (subst nearest_eof_loop.simps) simp

lemma nearest_eof_loop_at_eof:
  "NEAREST_EOF_SECTION s \<Longrightarrow> ahead (fobj s) = [] \<Longrightarrow>
     nearest_eof_loop s = Some (Inr (s\<lparr>NEAREST_EOF_SECTION := False\<rparr>))"
  by (subst nearest_eof_loop.simps) (simp add: read_def)

lemma strip_nul_A0B0: "strip_nul [CHR ''A'', CHR 0x00, CHR ''B'', CHR 0x00] = ''AB''"
  by (simp add: strip_nul_def)

lemma nearest_eof_loop_user:
  "nearest_eof_loop
      (initial_state [] \<lparr>ahead = [0x41, 0x00, 0x42, 0x00, 0x00, 0x00], tell = 0\<rparr>
         \<lparr>CURRENT_MODE := NULL_DATA_MODE\<rparr>)
     = Some (Inr (initial_state [] \<lparr>ahead = [], tell = 6\<rparr>
         \<lparr>CURRENT_MODE := NULL_DATA_MODE, CURRENT_EOF_SECTION_KEY := 0,
          parsed_value_dict := [''GUID'' \<mapsto> PyStr [], ''User'' \<mapsto> PyStr ''AB''],
          NEAREST_EOF_SECTION := False\<rparr>))"
proof -
  let ?s0 = "initial_state [] \<lparr>ahead = [0x41, 0x00, 0x42, 0x00, 0x00, 0x00], tell = 0\<rparr>
         \<lparr>CURRENT_MODE := NULL_DATA_MODE\<rparr>"
  let ?s1 = "initial_state [] \<lparr>ahead = [0x00, 0x00], tell = 4\<rparr>
         \<lparr>CURRENT_MODE := VALUE_READ_MODE, CURRENT_EOF_SECTION_KEY := 0,
          parsed_value_dict := [''GUID'' \<mapsto> PyStr [],
             ''User'' \<mapsto> PyStr [CHR ''A'', CHR 0x00, CHR ''B'', CHR 0x00]]\<rparr>"
  let ?s2 = "initial_state [] \<lparr>ahead = [], tell = 6\<rparr>
         \<lparr>CURRENT_MODE := NULL_DATA_MODE, CURRENT_EOF_SECTION_KEY := 0,
          parsed_value_dict := [''GUID'' \<mapsto> PyStr [], ''User'' \<mapsto> PyStr ''AB'']\<rparr>"
  have "nearest_eof_loop ?s0 = nearest_eof_loop ?s1"
    by (rule nearest_eof_loop_step [where chunk = "[0x41, 0x00]"
          and ?f1.0 = "\<lparr>ahead = [0x42, 0x00, 0x00, 0x00], tell = 2\<rparr>"])
       (simp_all add: initial_state_def read_def nearest_eof_body_def decode_A0 alnum_A0
          decode_A0B0 eof_sub_A0B0 py_index_def EOF_SECTION_KEYS_def)
  also have "\<dots> = nearest_eof_loop ?s2"
    by (rule nearest_eof_loop_step [where chunk = "[0x00, 0x00]"
          and ?f1.0 = "\<lparr>ahead = [], tell = 6\<rparr>"])
       (simp_all add: initial_state_def read_def nearest_eof_body_def py_index_def
          EOF_SECTION_KEYS_def dict_stripped_def strip_nul_A0B0)
  also have "\<dots> = Some (Inr (?s2\<lparr>NEAREST_EOF_SECTION := False\<rparr>))"
    by (rule nearest_eof_loop_at_eof) (simp_all add: initial_state_def)
  finally show ?thesis by (simp add: initial_state_def)
qed

text \<open>
  C6. The loop of the last section stores fields under the three positional keys
  \<^verbatim>\<open>User\<close>, \<^verbatim>\<open>SpawningProcessName\<close> and \<^verbatim>\<open>SecurityGroup\<close> only. In
  \<^verbatim>\<open>NULL_DATA_MODE\<close>, a chunk that is no line-feed marker and holds a word character
  is extended by the next two bytes, as in the General section, but the confirmation
  is the section's own: at least two characters are left by the substitution of line
  292 (letters, digits, spaces and the colons it keeps), and the window holds a zero
  byte. A confirmed window moves the key index on by one, stores the decoded window
  under that key and starts \<^verbatim>\<open>VALUE_READ_MODE\<close>; behind the third key the index is
  outside the list and \<^verbatim>\<open>IndexError\<close> is raised. A window that is not confirmed
  only moves the file on.
\<close>

theorem nearest_eof_positional_fields:
  "EOF_SECTION_KEYS = [''User'', ''SpawningProcessName'', ''SecurityGroup'']
   \<and> (nearest_eof_loop s0 = Some (Inr s3) \<longrightarrow>
      dom (parsed_value_dict s3) \<subseteq> dom (parsed_value_dict s0) \<union> set EOF_SECTION_KEYS)
   \<and> (CURRENT_MODE s = NULL_DATA_MODE \<and> chunk \<noteq> [0x0A, 0x00] \<and> chunk \<noteq> [0x00, 0x0A]
        \<and> decode chunk = Inr t \<and> 1 \<le> alnum_len t
        \<and> read 2 (fobj s) = (extra, f1) \<and> decode (chunk @ extra) = Inr t'
        \<and> - 1 \<le> CURRENT_EOF_SECTION_KEY s
      \<longrightarrow> nearest_eof_body chunk s =
          (if 2 \<le> length (eof_sub t') \<and> 0x00 \<in> set (chunk @ extra)
           then if CURRENT_EOF_SECTION_KEY s < 2
                then Inr (s\<lparr>fobj := f1,
                           CURRENT_EOF_SECTION_KEY := CURRENT_EOF_SECTION_KEY s + 1,
                           parsed_value_dict := (parsed_value_dict s)
                             (EOF_SECTION_KEYS ! nat (CURRENT_EOF_SECTION_KEY s + 1) \<mapsto> PyStr t'),
                           CURRENT_MODE := VALUE_READ_MODE\<rparr>)
                else Inl IndexError
           else Inr (s\<lparr>fobj := f1\<rparr>)))"
proof (intro conjI impI)
  show "EOF_SECTION_KEYS = [''User'', ''SpawningProcessName'', ''SecurityGroup'']"
    by (simp add: EOF_SECTION_KEYS_def)
next
  assume "nearest_eof_loop s0 = Some (Inr s3)"
  from nearest_eof_loop_dom [OF this]
  show "dom (parsed_value_dict s3) \<subseteq> dom (parsed_value_dict s0) \<union> set EOF_SECTION_KEYS"
    by blast
next
  assume "CURRENT_MODE s = NULL_DATA_MODE \<and> chunk \<noteq> [0x0A, 0x00] \<and> chunk \<noteq> [0x00, 0x0A]
        \<and> decode chunk = Inr t \<and> 1 \<le> alnum_len t
        \<and> read 2 (fobj s) = (extra, f1) \<and> decode (chunk @ extra) = Inr t'
        \<and> - 1 \<le> CURRENT_EOF_SECTION_KEY s"
  then show "nearest_eof_body chunk s =
          (if 2 \<le> length (eof_sub t') \<and> 0x00 \<in> set (chunk @ extra)
           then if CURRENT_EOF_SECTION_KEY s < 2
                then Inr (s\<lparr>fobj := f1,
                           CURRENT_EOF_SECTION_KEY := CURRENT_EOF_SECTION_KEY s + 1,
                           parsed_value_dict := (parsed_value_dict s)
                             (EOF_SECTION_KEYS ! nat (CURRENT_EOF_SECTION_KEY s + 1) \<mapsto> PyStr t'),
                           CURRENT_MODE := VALUE_READ_MODE\<rparr>)
                else Inl IndexError
           else Inr (s\<lparr>fobj := f1\<rparr>))"
    using nearest_eof_null_confirm [of s chunk t extra f1 t'] by blast
qed

theorem nearest_eof_positional_fields_witness:
  "nearest_eof_loop
      (initial_state [] \<lparr>ahead = [0x41, 0x00, 0x42, 0x00, 0x00, 0x00], tell = 0\<rparr>
         \<lparr>CURRENT_MODE := NULL_DATA_MODE\<rparr>)
     = Some (Inr (initial_state [] \<lparr>ahead = [], tell = 6\<rparr>
         \<lparr>CURRENT_MODE := NULL_DATA_MODE, CURRENT_EOF_SECTION_KEY := 0,
          parsed_value_dict := [''GUID'' \<mapsto> PyStr [], ''User'' \<mapsto> PyStr ''AB''],
          NEAREST_EOF_SECTION := False\<rparr>))
   \<and> dom [''GUID'' \<mapsto> PyStr [], ''User'' \<mapsto> PyStr ''AB'']
        \<subseteq> dom [''GUID'' \<mapsto> PyStr []] \<union> set EOF_SECTION_KEYS
   \<and> nearest_eof_body [0x41, 0x00]
        (initial_state [] \<lparr>ahead = [0x42, 0x00], tell = 2\<rparr>\<lparr>CURRENT_MODE := NULL_DATA_MODE\<rparr>)
       = Inr (initial_state [] \<lparr>ahead = [], tell = 4\<rparr>
               \<lparr>CURRENT_MODE := VALUE_READ_MODE, CURRENT_EOF_SECTION_KEY := 0,
                parsed_value_dict := [''GUID'' \<mapsto> PyStr [],
                  ''User'' \<mapsto> PyStr [CHR ''A'', CHR 0x00, CHR ''B'', CHR 0x00]]\<rparr>)"
proof -
  let ?start = "initial_state [] \<lparr>ahead = [0x41, 0x00, 0x42, 0x00, 0x00, 0x00], tell = 0\<rparr>
         \<lparr>CURRENT_MODE := NULL_DATA_MODE\<rparr>"
  let ?stop = "initial_state [] \<lparr>ahead = [], tell = 6\<rparr>
         \<lparr>CURRENT_MODE := NULL_DATA_MODE, CURRENT_EOF_SECTION_KEY := 0,
          parsed_value_dict := [''GUID'' \<mapsto> PyStr [], ''User'' \<mapsto> PyStr ''AB''],
          NEAREST_EOF_SECTION := False\<rparr>"
  let ?st = "initial_state [] \<lparr>ahead = [0x42, 0x00], tell = 2\<rparr>\<lparr>CURRENT_MODE := NULL_DATA_MODE\<rparr>"
  have pre: "CURRENT_MODE ?st = NULL_DATA_MODE \<and> [0x41, 0x00] \<noteq> [0x0A, 0x00 :: byte]
        \<and> [0x41, 0x00] \<noteq> [0x00, 0x0A :: byte]
        \<and> decode [0x41, 0x00] = Inr [CHR ''A'', CHR 0x00]
        \<and> 1 \<le> alnum_len [CHR ''A'', CHR 0x00]
        \<and> read 2 (fobj ?st) = ([0x42, 0x00], \<lparr>ahead = [], tell = 4\<rparr>)
        \<and> decode ([0x41, 0x00] @ [0x42, 0x00]) = Inr [CHR ''A'', CHR 0x00, CHR ''B'', CHR 0x00]
        \<and> - 1 \<le> CURRENT_EOF_SECTION_KEY ?st"
    by (simp add: initial_state_def decode_A0 alnum_A0 decode_A0B0 read_def)
  note inst = nearest_eof_positional_fields [where ?s0.0 = ?start and ?s3.0 = ?stop and s = ?st
      and chunk = "[0x41, 0x00]" and t = "[CHR ''A'', CHR 0x00]" and extra = "[0x42, 0x00]"
      and ?f1.0 = "\<lparr>ahead = [], tell = 4\<rparr>"
      and t' = "[CHR ''A'', CHR 0x00, CHR ''B'', CHR 0x00]"]
  from inst nearest_eof_loop_user
  have d: "dom (parsed_value_dict ?stop) \<subseteq> dom (parsed_value_dict ?start) \<union> set EOF_SECTION_KEYS"
    by blast
  from inst pre
  have b: "nearest_eof_body [0x41, 0x00] ?st =
          (if 2 \<le> length (eof_sub [CHR ''A'', CHR 0x00, CHR ''B'', CHR 0x00])
                \<and> 0x00 \<in> set ([0x41, 0x00] @ [0x42, 0x00 :: byte])
           then if CURRENT_EOF_SECTION_KEY ?st < 2
                then Inr (?st\<lparr>fobj := \<lparr>ahead = [], tell = 4\<rparr>,
                           CURRENT_EOF_SECTION_KEY := CURRENT_EOF_SECTION_KEY ?st + 1,
                           parsed_value_dict := (parsed_value_dict ?st)
                             (EOF_SECTION_KEYS ! nat (CURRENT_EOF_SECTION_KEY ?st + 1)
                                \<mapsto> PyStr [CHR ''A'', CHR 0x00, CHR ''B'', CHR 0x00]),
                           CURRENT_MODE := VALUE_READ_MODE\<rparr>)
                else Inl IndexError
           else Inr (?st\<lparr>fobj := \<lparr>ahead = [], tell = 4\<rparr>\<rparr>))"
    by blast
  have b': "nearest_eof_body [0x41, 0x00] ?st
       = Inr (initial_state [] \<lparr>ahead = [], tell = 4\<rparr>
               \<lparr>CURRENT_MODE := VALUE_READ_MODE, CURRENT_EOF_SECTION_KEY := 0,
                parsed_value_dict := [''GUID'' \<mapsto> PyStr [],
                  ''User'' \<mapsto> PyStr [CHR ''A'', CHR 0x00, CHR ''B'', CHR 0x00]]\<rparr>)"
    unfolding b by (simp add: eof_sub_A0B0 initial_state_def EOF_SECTION_KEYS_def)
  from d have d': "dom [''GUID'' \<mapsto> PyStr [], ''User'' \<mapsto> PyStr ''AB'']
        \<subseteq> dom [''GUID'' \<mapsto> PyStr []] \<union> set EOF_SECTION_KEYS"
    by (simp add: initial_state_def)
  from nearest_eof_loop_user d' b' show ?thesis by blast
qed


text \<open>
  The claim C6 as stated, with the same confirmation as in the General section, fails
  in both directions. On the window \<^verbatim>\<open>41 42 43 44\<close> the General section starts a key
  and the last section does nothing, since the window has no zero byte. On the window
  \<^verbatim>\<open>41 00 20 00\<close> the General section does nothing, since one word character is
  not enough, and the last section stores a field under \<^verbatim>\<open>User\<close>, since it counts
  the space.
\<close>

theorem nearest_eof_lookahead_differs:
  "general_body (\<lambda>ticks. Inl OverflowError) [0x41, 0x42]
      (initial_state [] \<lparr>ahead = [0x43, 0x44], tell = 2\<rparr>\<lparr>CURRENT_MODE := NULL_DATA_MODE\<rparr>)
     = Some (Inr (initial_state [] \<lparr>ahead = [], tell = 4\<rparr>
                   \<lparr>CURRENT_MODE := KEY_READ_MODE, temp_key := ''ABCD''\<rparr>))
   \<and> nearest_eof_body [0x41, 0x42]
      (initial_state [] \<lparr>ahead = [0x43, 0x44], tell = 2\<rparr>\<lparr>CURRENT_MODE := NULL_DATA_MODE\<rparr>)
     = Inr (initial_state [] \<lparr>ahead = [], tell = 4\<rparr>\<lparr>CURRENT_MODE := NULL_DATA_MODE\<rparr>)
   \<and> general_body (\<lambda>ticks. Inl OverflowError) [0x41, 0x00]
      (initial_state [] \<lparr>ahead = [0x20, 0x00], tell = 2\<rparr>\<lparr>CURRENT_MODE := NULL_DATA_MODE\<rparr>)
     = Some (Inr (initial_state [] \<lparr>ahead = [], tell = 4\<rparr>\<lparr>CURRENT_MODE := NULL_DATA_MODE\<rparr>))
   \<and> nearest_eof_body [0x41, 0x00]
      (initial_state [] \<lparr>ahead = [0x20, 0x00], tell = 2\<rparr>\<lparr>CURRENT_MODE := NULL_DATA_MODE\<rparr>)
     = Inr (initial_state [] \<lparr>ahead = [], tell = 4\<rparr>
             \<lparr>CURRENT_MODE := VALUE_READ_MODE, CURRENT_EOF_SECTION_KEY := 0,
              parsed_value_dict := [''GUID'' \<mapsto> PyStr [],
                ''User'' \<mapsto> PyStr [CHR ''A'', CHR 0x00, CHR '' '', CHR 0x00]]\<rparr>)"
  by (simp add: general_body_def general_null_def nearest_eof_body_def initial_state_def read_def
      decode_AB decode_ABCD decode_A0 decode_A0S0 alnum_AB alnum_ABCD alnum_A0 alnum_A0S0
      eof_sub_ABCD eof_sub_A0S0 py_index_def EOF_SECTION_KEYS_def)

text \<open>
  What \<^verbatim>\<open>parse_filetime\<close> does before lines 106 to 108, whatever the rendering: with
  twelve bytes or more ahead, it hands the little-endian value of bytes 4 to 11 to the
  rendering and leaves the file twelve bytes further.
\<close>

lemma parse_filetime_reads_ticks:
  assumes "12 \<le> length (ahead f)"
  shows "parse_filetime render f
     = (render (le_value (take 8 (drop 4 (ahead f)))),
        \<lparr>ahead = drop 12 (ahead f), tell = tell f + 12\<rparr>)"
  using assms
  by (simp add: parse_filetime_def read_def byte_swap_to_int_hexlify add.commute)

lemma dec_digit_in: "dec_digit n \<in> set ''0123456789''"
proof -
  have "nat (n mod 10) < 10" by simp
  then have "nat (n mod 10) \<in> {0, 1, 2, 3, 4, 5, 6, 7, 8, 9}" by (simp; arith)
  then show ?thesis by (elim insertE emptyE; simp add: dec_digit_def)
qed

lemma two_digits_layout: "length (two_digits n) = 2 \<and> set (two_digits n) \<subseteq> set ''0123456789''"
  using dec_digit_in [of n] dec_digit_in [of "n div 10"]
  by (simp add: two_digits_def)

lemma four_digits_layout: "length (four_digits n) = 4 \<and> set (four_digits n) \<subseteq> set ''0123456789''"
  using dec_digit_in [of n] dec_digit_in [of "n div 10"] dec_digit_in [of "n div 100"]
    dec_digit_in [of "n div 1000"]
  by (simp add: four_digits_def)

lemma filetime_text_zero: "filetime_text 0 = Inr ''01-01-1601 00:00:00''"
  by code_simp

lemma filetime_text_one_second: "filetime_text 10000000 = Inr ''01-01-1601 00:00:01''"
  by code_simp

lemma filetime_text_max: "filetime_text 18446744073709551615 = Inl OverflowError"
  by code_simp

lemma le_value_ff: "le_value [0xFF, 0xFF, 0xFF, 0xFF, 0xFF, 0xFF, 0xFF, 0xFF] = 18446744073709551615"
  by simp

lemma le_value_second: "le_value [0x80, 0x96, 0x98, 0, 0, 0, 0, 0] = 10000000"
  by simp

lemma timedelta_error: "timedelta_microseconds x = Inl e \<Longrightarrow> e = OverflowError"
  by (cases x) (simp add: timedelta_microseconds_def Let_def split: if_splits)

lemma datetime_error: "datetime_1601_plus us = Inl e \<Longrightarrow> e = OverflowError"
  by (simp add: datetime_1601_plus_def Let_def split: if_splits prod.splits)

lemma filetime_text_cases:
  "filetime_text n = Inl OverflowError \<or> (\<exists>t. filetime_text n = Inr (strftime t))"
proof (cases "timedelta_microseconds (true_div_10 n)")
  case (Inl e)
  with timedelta_error [OF Inl] show ?thesis by (simp add: filetime_text_def)
next
  case (Inr us)
  show ?thesis
  proof (cases "datetime_1601_plus us")
    case (Inl e)
    with datetime_error [OF Inl] Inr show ?thesis by (simp add: filetime_text_def)
  next
    case t: (Inr t)
    with Inr have "filetime_text n = Inr (strftime t)" by (simp add: filetime_text_def)
    then show ?thesis by blast
  qed
qed

lemma filetime_text_overflow:
  assumes "timedelta_microseconds (true_div_10 n) = Inr us"
  shows "filetime_text n = Inl OverflowError \<longleftrightarrow> 3067670 < us div 1000000 div 86400"
proof (cases "3067670 < us div 1000000 div 86400")
  case True
  with assms show ?thesis by (simp add: filetime_text_def datetime_1601_plus_def)
next
  case False
  then obtain t where "datetime_1601_plus us = Inr t"
    by (cases "date_1601_plus (us div 1000000 div 86400)")
       (simp add: datetime_1601_plus_def Let_def)
  with assms False show ?thesis by (simp add: filetime_text_def)
qed


lemma filetime_text_time:
  assumes "timedelta_microseconds (true_div_10 n) = Inr us"
    and "\<not> 3067670 < us div 1000000 div 86400"
  shows "\<exists>date. length date = 10
     \<and> filetime_text n
         = Inr (date @ '' '' @ two_digits (us div 1000000 mod 86400 div 3600)
                  @ '':'' @ two_digits (us div 1000000 mod 86400 div 60 mod 60)
                  @ '':'' @ two_digits (us div 1000000 mod 86400 mod 60))"
proof -
  obtain y m d where ymd: "date_1601_plus (us div 1000000 div 86400) = (y, m, d)"
    by (cases "date_1601_plus (us div 1000000 div 86400)") blast
  let ?date = "two_digits m @ ''-'' @ two_digits d @ ''-'' @ four_digits y"
  have "length ?date = 10"
    by (simp add: two_digits_def four_digits_def)
  moreover from assms ymd have "filetime_text n
         = Inr (?date @ '' '' @ two_digits (us div 1000000 mod 86400 div 3600)
                  @ '':'' @ two_digits (us div 1000000 mod 86400 div 60 mod 60)
                  @ '':'' @ two_digits (us div 1000000 mod 86400 mod 60))"
    by (simp add: filetime_text_def datetime_1601_plus_def strftime_def Let_def)
  ultimately show ?thesis by blast
qed


lemma strftime_layout:
  "\<exists>mm dd yyyy hh mi ss.
     strftime t = mm @ ''-'' @ dd @ ''-'' @ yyyy @ '' '' @ hh @ '':'' @ mi @ '':'' @ ss
     \<and> length mm = 2 \<and> length dd = 2 \<and> length yyyy = 4
     \<and> length hh = 2 \<and> length mi = 2 \<and> length ss = 2
     \<and> set (mm @ dd @ yyyy @ hh @ mi @ ss) \<subseteq> set ''0123456789''"
proof -
  let ?mm = "two_digits (month t)" and ?dd = "two_digits (day t)"
    and ?yyyy = "four_digits (year t)" and ?hh = "two_digits (hour t)"
    and ?mi = "two_digits (minute t)" and ?ss = "two_digits (second t)"
  have digits: "set (?mm @ ?dd @ ?yyyy @ ?hh @ ?mi @ ?ss) \<subseteq> set ''0123456789''"
    using two_digits_layout [of "month t"] two_digits_layout [of "day t"]
      four_digits_layout [of "year t"] two_digits_layout [of "hour t"]
      two_digits_layout [of "minute t"] two_digits_layout [of "second t"]
    by (simp only: set_append Un_subset_iff)
  have layout: "strftime t
      = ?mm @ ''-'' @ ?dd @ ''-'' @ ?yyyy @ '' '' @ ?hh @ '':'' @ ?mi @ '':'' @ ?ss"
    by (simp add: strftime_def)
  have lens: "length ?mm = 2 \<and> length ?dd = 2 \<and> length ?yyyy = 4
     \<and> length ?hh = 2 \<and> length ?mi = 2 \<and> length ?ss = 2"
    by (simp add: two_digits_def four_digits_def)
  from layout lens digits show ?thesis by blast
qed


lemma filetime_text_layout:
  "filetime_text n = Inl OverflowError
   \<or> (\<exists>mm dd yyyy hh mi ss.
         filetime_text n
           = Inr (mm @ ''-'' @ dd @ ''-'' @ yyyy @ '' '' @ hh @ '':'' @ mi @ '':'' @ ss)
         \<and> length mm = 2 \<and> length dd = 2 \<and> length yyyy = 4
         \<and> length hh = 2 \<and> length mi = 2 \<and> length ss = 2
         \<and> set (mm @ dd @ yyyy @ hh @ mi @ ss) \<subseteq> set ''0123456789'')"
proof (cases "filetime_text n = Inl OverflowError")
  case True
  then show ?thesis by (rule disjI1)
next
  case False
  with filetime_text_cases [of n] obtain t
    where ft: "filetime_text n = Inr (strftime t)" by (elim disjE exE) simp_all
  show ?thesis
    unfolding ft sum.inject by (rule disjI2) (rule strftime_layout)
qed

lemma filetime_text_seconds:
  assumes "timedelta_microseconds (true_div_10 n) = Inr us"
  shows "if 3067670 < us div 1000000 div 86400
         then filetime_text n = Inl OverflowError
         else \<exists>date. length date = 10
            \<and> filetime_text n
                = Inr (date @ '' '' @ two_digits (us div 1000000 mod 86400 div 3600)
                         @ '':'' @ two_digits (us div 1000000 mod 86400 div 60 mod 60)
                         @ '':'' @ two_digits (us div 1000000 mod 86400 mod 60))"
proof (cases "3067670 < us div 1000000 div 86400")
  case True
  with filetime_text_overflow [OF assms] show ?thesis by simp
next
  case False
  from filetime_text_time [OF assms False] False show ?thesis by (simp only: if_False)
qed

text \<open>
  C8. With twelve bytes or more ahead, \<^verbatim>\<open>parse_filetime\<close> skips four bytes, takes the
  next eight as a little-endian tick count and leaves the file twelve bytes further.
  The count is divided by ten in floating point and the quotient rounded to whole
  microseconds. When the date that lies so many microseconds behind the first of
  January 1601 is not later than the year 9999, the result is a text of the form
  \<^verbatim>\<open>MM-DD-YYYY HH:MM:SS\<close>, whose time of day is that of the whole seconds; when it is
  later, \<^verbatim>\<open>OverflowError\<close> is raised and no text is returned. The tick count 0 gives
  \<^verbatim>\<open>01-01-1601 00:00:00\<close> and the tick count 10,000,000 gives \<^verbatim>\<open>01-01-1601 00:00:01\<close>.
\<close>

theorem parse_filetime_text:
  assumes "12 \<le> length (ahead f)"
  shows "\<exists>ticks. ticks = le_value (take 8 (drop 4 (ahead f)))
     \<and> parse_filetime filetime_text f
          = (filetime_text ticks, \<lparr>ahead = drop 12 (ahead f), tell = tell f + 12\<rparr>)
     \<and> (filetime_text ticks = Inl OverflowError
          \<or> (\<exists>mm dd yyyy hh mi ss.
                filetime_text ticks
                  = Inr (mm @ ''-'' @ dd @ ''-'' @ yyyy @ '' '' @ hh @ '':'' @ mi @ '':'' @ ss)
                \<and> length mm = 2 \<and> length dd = 2 \<and> length yyyy = 4
                \<and> length hh = 2 \<and> length mi = 2 \<and> length ss = 2
                \<and> set (mm @ dd @ yyyy @ hh @ mi @ ss) \<subseteq> set ''0123456789''))
     \<and> (\<forall>us. timedelta_microseconds (true_div_10 ticks) = Inr us \<longrightarrow>
           (if 3067670 < us div 1000000 div 86400
            then filetime_text ticks = Inl OverflowError
            else \<exists>date. length date = 10
               \<and> filetime_text ticks
                   = Inr (date @ '' '' @ two_digits (us div 1000000 mod 86400 div 3600)
                            @ '':'' @ two_digits (us div 1000000 mod 86400 div 60 mod 60)
                            @ '':'' @ two_digits (us div 1000000 mod 86400 mod 60))))
     \<and> filetime_text 0 = Inr ''01-01-1601 00:00:00''
     \<and> filetime_text 10000000 = Inr ''01-01-1601 00:00:01''"
proof (rule exI [of _ "le_value (take 8 (drop 4 (ahead f)))"], intro conjI allI impI)
  show "le_value (take 8 (drop 4 (ahead f))) = le_value (take 8 (drop 4 (ahead f)))"
    by (rule refl)
next
  show "parse_filetime filetime_text f
          = (filetime_text (le_value (take 8 (drop 4 (ahead f)))),
             \<lparr>ahead = drop 12 (ahead f), tell = tell f + 12\<rparr>)"
    using assms by (rule parse_filetime_reads_ticks)
next
  show "filetime_text (le_value (take 8 (drop 4 (ahead f)))) = Inl OverflowError
          \<or> (\<exists>mm dd yyyy hh mi ss.
                filetime_text (le_value (take 8 (drop 4 (ahead f))))
                  = Inr (mm @ ''-'' @ dd @ ''-'' @ yyyy @ '' '' @ hh @ '':'' @ mi @ '':'' @ ss)
                \<and> length mm = 2 \<and> length dd = 2 \<and> length yyyy = 4
                \<and> length hh = 2 \<and> length mi = 2 \<and> length ss = 2
                \<and> set (mm @ dd @ yyyy @ hh @ mi @ ss) \<subseteq> set ''0123456789'')"
    by (rule filetime_text_layout)
next
  fix us
  assume "timedelta_microseconds (true_div_10 (le_value (take 8 (drop 4 (ahead f))))) = Inr us"
  then show "if 3067670 < us div 1000000 div 86400
            then filetime_text (le_value (take 8 (drop 4 (ahead f)))) = Inl OverflowError
            else \<exists>date. length date = 10
               \<and> filetime_text (le_value (take 8 (drop 4 (ahead f))))
                   = Inr (date @ '' '' @ two_digits (us div 1000000 mod 86400 div 3600)
                            @ '':'' @ two_digits (us div 1000000 mod 86400 div 60 mod 60)
                            @ '':'' @ two_digits (us div 1000000 mod 86400 mod 60))"
    by (rule filetime_text_seconds)
next
  show "filetime_text 0 = Inr ''01-01-1601 00:00:00''"
    by (rule filetime_text_zero)
next
  show "filetime_text 10000000 = Inr ''01-01-1601 00:00:01''"
    by (rule filetime_text_one_second)
qed

theorem parse_filetime_text_witness:
  "12 \<le> length (ahead (fopen [1, 2, 3, 4, 0x80, 0x96, 0x98, 0, 0, 0, 0, 0, 0xAA]))
   \<and> parse_filetime filetime_text (fopen [1, 2, 3, 4, 0x80, 0x96, 0x98, 0, 0, 0, 0, 0, 0xAA])
       = (Inr ''01-01-1601 00:00:01'', \<lparr>ahead = [0xAA], tell = 12\<rparr>)"
proof -
  let ?f = "fopen [1, 2, 3, 4, 0x80, 0x96, 0x98, 0, 0, 0, 0, 0, 0xAA]"
  have len: "12 \<le> length (ahead ?f)"
    by (simp add: fopen_def)
  from parse_filetime_text [OF len] obtain ticks
    where ticks: "ticks = le_value (take 8 (drop 4 (ahead ?f)))"
      and res: "parse_filetime filetime_text ?f
                  = (filetime_text ticks, \<lparr>ahead = drop 12 (ahead ?f), tell = tell ?f + 12\<rparr>)"
      and one: "filetime_text 10000000 = Inr ''01-01-1601 00:00:01''"
    by (elim exE conjE)
  have "le_value (take 8 (drop 4 (ahead ?f))) = 10000000"
    by (simp add: fopen_def)
  with ticks have "ticks = 10000000" by simp
  with res one have "parse_filetime filetime_text ?f
       = (Inr ''01-01-1601 00:00:01'', \<lparr>ahead = drop 12 (ahead ?f), tell = tell ?f + 12\<rparr>)"
    by simp
  moreover have "drop 12 (ahead ?f) = [0xAA]" "tell ?f + 12 = 12"
    by (simp_all add: fopen_def)
  ultimately have "parse_filetime filetime_text ?f
       = (Inr ''01-01-1601 00:00:01'', \<lparr>ahead = [0xAA], tell = 12\<rparr>)"
    by simp
  with len show ?thesis by (rule conjI)
qed

text \<open>
  The eight bytes \<^verbatim>\<open>FF\<close> are a tick count whose date lies far beyond the year 9999:
  with twelve bytes ahead, \<^verbatim>\<open>parse_filetime\<close> raises \<^verbatim>\<open>OverflowError\<close> and returns no
  text.
\<close>

theorem parse_filetime_overflow:
  "12 \<le> length (ahead (fopen [0, 0, 0, 0, 0xFF, 0xFF, 0xFF, 0xFF, 0xFF, 0xFF, 0xFF, 0xFF]))
   \<and> parse_filetime filetime_text (fopen [0, 0, 0, 0, 0xFF, 0xFF, 0xFF, 0xFF, 0xFF, 0xFF, 0xFF, 0xFF])
       = (Inl OverflowError, \<lparr>ahead = [], tell = 12\<rparr>)"
proof -
  let ?f = "fopen [0, 0, 0, 0, 0xFF, 0xFF, 0xFF, 0xFF, 0xFF, 0xFF, 0xFF, 0xFF]"
  have len: "12 \<le> length (ahead ?f)"
    by (simp add: fopen_def)
  have "le_value (take 8 (drop 4 (ahead ?f))) = 18446744073709551615"
    by (simp add: fopen_def)
  with parse_filetime_reads_ticks [OF len, of filetime_text]
  have "parse_filetime filetime_text ?f
       = (Inl OverflowError, \<lparr>ahead = drop 12 (ahead ?f), tell = tell ?f + 12\<rparr>)"
    by (simp add: filetime_text_max)
  moreover have "drop 12 (ahead ?f) = []" "tell ?f + 12 = 12"
    by (simp_all add: fopen_def)
  ultimately have "parse_filetime filetime_text ?f
       = (Inl OverflowError, \<lparr>ahead = [], tell = 12\<rparr>)"
    by simp
  with len show ?thesis by (rule conjI)
qed

end
